theory Spec2Isabelle
  imports Complex_Main "HOL-Library.Multiset"
begin

section \<open>Data model\<close>

text \<open>
  The rows of the remote store, as \<^verbatim>\<open>src/integrations/supabase/types.ts\<close> declares them.
  Identifiers are strings; the two enums of the schema are datatypes. Every table has a
  column \<^verbatim>\<open>id\<close>, and several have \<^verbatim>\<open>session_id\<close> or \<^verbatim>\<open>story_id\<close>: a field that
  would clash carries the table's initials as a prefix. Columns that only feed the
  display (descriptions, timestamps, \<^verbatim>\<open>is_alive\<close>) are left out.
\<close>

type_synonym uuid = string

datatype game_status = Waiting | InProgress | Voting | Completed

datatype player_role = Detective | Murderer

record story =
  st_id :: uuid
  st_title :: string
  min_players :: int
  max_players :: int
  total_rounds :: int

record character =
  ch_id :: uuid
  ch_story_id :: uuid
  ch_name :: string

record clue =
  cl_id :: uuid
  cl_story_id :: uuid
  round_number :: int
  is_for_murderer :: "bool option"
  cl_title :: string
  cl_content :: string

record game_session =
  gs_id :: uuid
  host_id :: uuid
  story_id :: uuid
  session_code :: string
  password :: "string option"
  status :: game_status
  current_round :: int
  max_rounds :: int

record game_player =
  gp_id :: uuid
  session_id :: uuid
  user_id :: uuid
  character_id :: uuid
  role :: player_role

record vote =
  v_id :: uuid
  v_session_id :: uuid
  voter_id :: uuid
  accused_id :: uuid

text \<open>
  The store itself: one list of rows per table, in listing order. Every call of the
  gateway is modelled as succeeding and as applied at once: the components never look
  at the error of an \<^verbatim>\<open>update\<close>, and the calls of one handler run one after the other.
\<close>

record database =
  stories :: "story list"
  characters :: "character list"
  clues :: "clue list"
  game_sessions :: "game_session list"
  game_players :: "game_player list"
  votes :: "vote list"

text \<open>
  JavaScript truthiness, for the two types the handlers test it on: a nullable boolean
  is truthy when it is \<^verbatim>\<open>true\<close>, a nullable string when it is present and not empty.
\<close>

fun truthy_bool :: "bool option \<Rightarrow> bool" where
  "truthy_bool (Some b) = b"
| "truthy_bool None = False"

fun truthy_string :: "string option \<Rightarrow> bool" where
  "truthy_string (Some s) = (s \<noteq> [])"
| "truthy_string None = False"

text \<open>
  \<^verbatim>\<open>.single()\<close> of the gateway client: the row when the query matches exactly one row, an
  error (no data) when it matches none or several.
\<close>

fun single :: "'a list \<Rightarrow> 'a option" where
  "single [x] = Some x"
| "single _ = None"

section \<open>Clue disclosure (GamePlay, \<^verbatim>\<open>fetchGameData\<close>)\<close>

definition isMurderer :: "game_player \<Rightarrow> bool" where
  "isMurderer player = (role player = Murderer)"

text \<open>The flag computed for each fetched clue (lines 90 to 94).\<close>

definition isVisible :: "game_session \<Rightarrow> game_player \<Rightarrow> clue \<Rightarrow> bool" where
  "isVisible session player c =
     (round_number c \<le> current_round session \<and>
      (if truthy_bool (is_for_murderer c) then isMurderer player
       else \<not> truthy_bool (is_for_murderer c)))"

text \<open>
  The query of lines 83 to 87: the clues of the story up to the current round. With no
  story loaded (\<^verbatim>\<open>story\<close> is null) nothing is fetched and the list stays empty.
\<close>

definition cluesData :: "database \<Rightarrow> story option \<Rightarrow> game_session \<Rightarrow> clue list" where
  "cluesData db st session =
     (case st of
        None \<Rightarrow> []
      | Some s \<Rightarrow> filter (\<lambda>c. cl_story_id c = st_id s \<and> round_number c \<le> current_round session)
                         (clues db))"

definition cluesWithVisibility ::
  "database \<Rightarrow> story option \<Rightarrow> game_session \<Rightarrow> game_player \<Rightarrow> (clue \<times> bool) list" where
  "cluesWithVisibility db st session player =
     map (\<lambda>c. (c, isVisible session player c)) (cluesData db st session)"

text \<open>What the page renders: \<^verbatim>\<open>clues.filter(clue => clue.isVisible)\<close>.\<close>

definition visibleClues ::
  "database \<Rightarrow> story option \<Rightarrow> game_session \<Rightarrow> game_player \<Rightarrow> clue list" where
  "visibleClues db st session player =
     map fst (filter snd (cluesWithVisibility db st session player))"

section \<open>Vote tally and outcome (GameResults)\<close>

definition voteCount :: "vote list \<Rightarrow> game_player \<Rightarrow> nat" where
  "voteCount vs p = length (filter (\<lambda>v. accused_id v = user_id p) vs)"

text \<open>
  \<^verbatim>\<open>players.map(...).sort((a, b) => b.voteCount - a.voteCount)\<close>. The sort of a JavaScript
  array is stable, and so is the insertion sort \<^const>\<open>sort_key\<close>; descending order of
  the count is ascending order of its negation.
\<close>

definition voteCounts :: "game_player list \<Rightarrow> vote list \<Rightarrow> (game_player \<times> nat) list" where
  "voteCounts players vs =
     sort_key (\<lambda>e. - int (snd e)) (map (\<lambda>p. (p, voteCount vs p)) players)"

text \<open>
  \<^verbatim>\<open>mostVoted?.player.role === 'murderer' && mostVoted.voteCount > 0\<close>, where
  \<^verbatim>\<open>mostVoted\<close> is element 0 of the sorted tally, undefined for an empty player list.
\<close>

definition detectivesWon :: "game_player list \<Rightarrow> vote list \<Rightarrow> bool" where
  "detectivesWon players vs =
     (case voteCounts players vs of
        [] \<Rightarrow> False
      | mostVoted # _ \<Rightarrow> role (fst mostVoted) = Murderer \<and> 0 < snd mostVoted)"

section \<open>Host-driven transitions\<close>

text \<open>
  Every handler takes the component's props and state it reads (the signed-in user, the
  component's snapshot of the session, its player list, the loaded story), the outcomes
  of its calls of \<^verbatim>\<open>Math.random\<close>, and the store; it returns what the user is shown
  together with the store it leaves behind. An early \<^verbatim>\<open>return\<close> is an \<open>Inl\<close> with the
  store untouched.
\<close>

text \<open>
  The early returns of the handlers, named after the message each one shows. \<open>NotHost\<close>
  is the silent \<^verbatim>\<open>if (!isHost) return\<close>, and \<open>Thrown\<close> an exception caught by the
  handler's \<^verbatim>\<open>catch\<close>.
\<close>

datatype rejection =
    NotEnoughPlayers
  | NotHost
  | AlreadyVoted
  | EmptyCode
  | GameNotFound
  | IncorrectPassword
  | AlreadyInProgress
  | GameFull
  | NoCharactersAvailable
  | Thrown

definition isHost :: "game_session \<Rightarrow> uuid \<Rightarrow> bool" where
  "isHost session user = (host_id session = user)"

text \<open>The rows of one session, as \<^verbatim>\<open>.from('game_players').eq('session_id', ...)\<close> lists them.\<close>

definition session_players :: "database \<Rightarrow> uuid \<Rightarrow> game_player list" where
  "session_players db sid = filter (\<lambda>p. session_id p = sid) (game_players db)"

text \<open>The stored row of a session, to state what a handler leaves in the store.\<close>

definition find_session :: "database \<Rightarrow> uuid \<Rightarrow> game_session option" where
  "find_session db sid = find (\<lambda>s. gs_id s = sid) (game_sessions db)"

text \<open>\<^verbatim>\<open>.from(table).update(fields).eq('id', key)\<close> on the two tables the handlers write.\<close>

definition update_session ::
  "uuid \<Rightarrow> (game_session \<Rightarrow> game_session) \<Rightarrow> database \<Rightarrow> database" where
  "update_session sid f db =
     db\<lparr>game_sessions := map (\<lambda>s. if gs_id s = sid then f s else s) (game_sessions db)\<rparr>"

definition update_player_role :: "uuid \<Rightarrow> player_role \<Rightarrow> database \<Rightarrow> database" where
  "update_player_role pid r db =
     db\<lparr>game_players := map (\<lambda>p. if gp_id p = pid then p\<lparr>role := r\<rparr> else p) (game_players db)\<rparr>"

text \<open>
  \<^verbatim>\<open>Math.floor(Math.random() * n)\<close>, the draw being a real number; \<^verbatim>\<open>Math.random\<close> returns
  a number from 0 up to but not including 1, which the theorems assume of it.
\<close>

definition random_index :: "real \<Rightarrow> nat \<Rightarrow> int" where
  "random_index rnd n = \<lfloor>rnd * real n\<rfloor>"

subsection \<open>GameLobby, \<^verbatim>\<open>startGame\<close>\<close>

text \<open>\<^verbatim>\<open>story?.min_players || 3\<close>: 3 when the story is not loaded or its minimum is 0.\<close>

definition required_players :: "story option \<Rightarrow> int" where
  "required_players st =
     (case st of
        None \<Rightarrow> 3
      | Some s \<Rightarrow> if min_players s = 0 then 3 else min_players s)"

text \<open>
  The loop of lines 162 to 170 from index \<open>i\<close> on: one update by row id for each
  element of the shuffled list.
\<close>

fun assign_roles :: "int \<Rightarrow> nat \<Rightarrow> game_player list \<Rightarrow> database \<Rightarrow> database" where
  "assign_roles murdererIndex i [] db = db"
| "assign_roles murdererIndex i (playerToUpdate # rest) db =
     assign_roles murdererIndex (Suc i) rest
       (update_player_role (gp_id playerToUpdate)
          (if int i = murdererIndex then Murderer else Detective) db)"

text \<open>
  \<open>shuffledPlayers\<close> is the outcome of \<^verbatim>\<open>[...players].sort(() => Math.random() - 0.5)\<close>,
  some rearrangement of \<open>players\<close>, and \<open>rnd\<close> the draw for the murderer's index. The
  handler itself does not read \<^verbatim>\<open>isHost\<close> (\<open>user\<close> is the component's prop); the button
  that calls it is rendered for the host only, see below.
\<close>

definition startGame ::
  "game_player list \<Rightarrow> real \<Rightarrow> uuid \<Rightarrow> game_session \<Rightarrow> game_player list \<Rightarrow> story option \<Rightarrow>
   database \<Rightarrow> (rejection + unit) \<times> database" where
  "startGame shuffledPlayers rnd user session players st db =
     (if int (length players) < required_players st then (Inl NotEnoughPlayers, db)
      else
        let murdererIndex = random_index rnd (length shuffledPlayers);
            db1 = assign_roles murdererIndex 0 shuffledPlayers db;
            db2 = update_session (gs_id session)
                    (\<lambda>s. s\<lparr>status := InProgress, current_round := 1\<rparr>) db1
        in (Inr (), db2))"

subsection \<open>GamePlay, \<^verbatim>\<open>nextRound\<close>\<close>

definition nextRound ::
  "uuid \<Rightarrow> game_session \<Rightarrow> database \<Rightarrow> (rejection + unit) \<times> database" where
  "nextRound user session db =
     (if \<not> isHost session user then (Inl NotHost, db)
      else
        let newRound = current_round session + 1;
            newStatus = (if newRound = max_rounds session then Voting else status session)
        in (Inr (),
            update_session (gs_id session)
              (\<lambda>s. s\<lparr>current_round := newRound, status := newStatus\<rparr>) db))"

subsection \<open>VotingPhase, \<^verbatim>\<open>endVoting\<close>\<close>

definition endVoting ::
  "uuid \<Rightarrow> game_session \<Rightarrow> database \<Rightarrow> (rejection + unit) \<times> database" where
  "endVoting user session db =
     (if \<not> isHost session user then (Inl NotHost, db)
      else (Inr (), update_session (gs_id session) (\<lambda>s. s\<lparr>status := Completed\<rparr>) db))"

subsection \<open>The controls that call the three handlers\<close>

text \<open>
  A handler runs only when its button is clicked, and each button is an element the
  page renders or not. A rendered button carries the \<^verbatim>\<open>disabled\<close> attribute and the
  handler as \<^verbatim>\<open>onClick\<close>; the button component of the user-interface kit hands both to
  the HTML button, which does not call the handler while it is disabled.
\<close>

record button =
  disabled :: bool
  onClick :: "database \<Rightarrow> (rejection + unit) \<times> database"

datatype click_outcome = NotRendered | Disabled | Handled "rejection + unit"

definition click :: "button option \<Rightarrow> database \<Rightarrow> click_outcome \<times> database" where
  "click b db =
     (case b of
        None \<Rightarrow> (NotRendered, db)
      | Some btn \<Rightarrow>
          if disabled btn then (Disabled, db)
          else (Handled (fst (onClick btn db)), snd (onClick btn db)))"

text \<open>
  GameLobby, lines 219 and 333 to 349: the lobby gives way to the game while the session
  is in progress or voting; otherwise the start button is inside \<^verbatim>\<open>{isHost && (...)}\<close>,
  disabled while loading or while the players are too few.
\<close>

definition startGameButton ::
  "bool \<Rightarrow> game_player list \<Rightarrow> real \<Rightarrow> uuid \<Rightarrow> game_session \<Rightarrow> game_player list \<Rightarrow>
   story option \<Rightarrow> button option" where
  "startGameButton loading shuffledPlayers rnd user session players st =
     (if status session = InProgress \<or> status session = Voting then None
      else if isHost session user
      then Some \<lparr>disabled = (loading \<or> int (length players) < required_players st),
                 onClick = startGame shuffledPlayers rnd user session players st\<rparr>
      else None)"

text \<open>
  GamePlay, lines 48, 166, 178 and 304 to 313: the results or the voting page replace
  the round page once the session is completed or voting; otherwise the button is inside
  \<^verbatim>\<open>{isHost && !isVotingRound && (...)}\<close>, disabled while loading.
\<close>

definition isVotingRound :: "game_session \<Rightarrow> bool" where
  "isVotingRound session = (current_round session = max_rounds session)"

definition nextRoundButton :: "bool \<Rightarrow> uuid \<Rightarrow> game_session \<Rightarrow> button option" where
  "nextRoundButton loading user session =
     (if status session = Completed \<or> status session = Voting then None
      else if isHost session user \<and> \<not> isVotingRound session
      then Some \<lparr>disabled = loading, onClick = nextRound user session\<rparr>
      else None)"

text \<open>VotingPhase, lines 263 to 277: inside \<^verbatim>\<open>{isHost && (...)}\<close>, disabled while loading.\<close>

definition endVotingButton :: "bool \<Rightarrow> uuid \<Rightarrow> game_session \<Rightarrow> button option" where
  "endVotingButton loading user session =
     (if isHost session user
      then Some \<lparr>disabled = loading, onClick = endVoting user session\<rparr>
      else None)"

section \<open>Casting a vote (VotingPhase)\<close>

text \<open>
  The component keeps \<^verbatim>\<open>userVote\<close>, the accused of the user's own vote or null.
  \<^verbatim>\<open>fetchVotes\<close> runs on mount and on every change of the session's votes; it sets
  \<^verbatim>\<open>userVote\<close> from the first vote of the user among the session's votes.
\<close>

definition fetchVotes :: "uuid \<Rightarrow> game_session \<Rightarrow> string option \<Rightarrow> database \<Rightarrow> string option" where
  "fetchVotes user session userVote db =
     (case find (\<lambda>v. voter_id v = user)
             (filter (\<lambda>v. v_session_id v = gs_id session) (votes db)) of
        Some myVote \<Rightarrow> Some (accused_id myVote)
      | None \<Rightarrow> userVote)"

text \<open>
  \<^verbatim>\<open>castVote\<close> returns the new \<^verbatim>\<open>userVote\<close> and the store; \<open>new_id\<close> is the key the store
  gives the inserted row.
\<close>

definition castVote ::
  "uuid \<Rightarrow> uuid \<Rightarrow> game_session \<Rightarrow> string option \<Rightarrow> uuid \<Rightarrow> database \<Rightarrow>
   (rejection + unit) \<times> string option \<times> database" where
  "castVote new_id user session userVote accusedId db =
     (if truthy_string userVote then (Inl AlreadyVoted, userVote, db)
      else
        (Inr (), Some accusedId,
         db\<lparr>votes := votes db @
               [\<lparr>v_id = new_id, v_session_id = gs_id session, voter_id = user,
                 accused_id = accusedId\<rparr>]\<rparr>))"



section \<open>Joining a session (JoinGameModal, \<^verbatim>\<open>joinGame\<close>)\<close>

text \<open>Strings are taken to be ASCII: the white space \<^verbatim>\<open>trim\<close> removes, and \<^verbatim>\<open>toUpperCase\<close>.\<close>

definition is_space :: "char \<Rightarrow> bool" where
  "is_space c = (of_char c \<in> {9, 10, 11, 12, 13, 32 :: nat})"

definition trim :: "string \<Rightarrow> string" where
  "trim s = rev (dropWhile is_space (rev (dropWhile is_space s)))"

definition upper_char :: "char \<Rightarrow> char" where
  "upper_char c =
     (case map_of (zip ''abcdefghijklmnopqrstuvwxyz'' ''ABCDEFGHIJKLMNOPQRSTUVWXYZ'') c of
        None \<Rightarrow> c
      | Some u \<Rightarrow> u)"

definition toUpperCase :: "string \<Rightarrow> string" where
  "toUpperCase s = map upper_char s"

datatype join_ok =
    AlreadyJoined game_session game_player
  | Joined game_session game_player

text \<open>The lookup of lines 41 to 45.\<close>

definition resolve_session :: "database \<Rightarrow> string \<Rightarrow> game_session option" where
  "resolve_session db sessionCode =
     single (filter (\<lambda>s. session_code s = toUpperCase sessionCode) (game_sessions db))"

text \<open>The lookup of lines 77 to 82.\<close>

definition existingPlayer :: "database \<Rightarrow> game_session \<Rightarrow> uuid \<Rightarrow> game_player option" where
  "existingPlayer db session user =
     single (filter (\<lambda>p. session_id p = gs_id session \<and> user_id p = user) (game_players db))"

text \<open>
  The test of line 105, \<^verbatim>\<open>players && story && players.length >= story.max_players\<close>; the
  story is the single row with the session's \<^verbatim>\<open>story_id\<close>, null when there is none.
\<close>

definition session_story :: "database \<Rightarrow> game_session \<Rightarrow> story option" where
  "session_story db session = single (filter (\<lambda>s. st_id s = story_id session) (stories db))"

definition game_full :: "database \<Rightarrow> game_session \<Rightarrow> bool" where
  "game_full db session =
     (case session_story db session of
        None \<Rightarrow> False
      | Some s \<Rightarrow> max_players s \<le> int (length (session_players db (gs_id session))))"

text \<open>Lines 115 to 122.\<close>

definition takenCharacterIds :: "database \<Rightarrow> game_session \<Rightarrow> uuid list" where
  "takenCharacterIds db session = map character_id (session_players db (gs_id session))"

definition availableCharacters :: "database \<Rightarrow> game_session \<Rightarrow> character list" where
  "availableCharacters db session =
     filter (\<lambda>c. ch_id c \<notin> set (takenCharacterIds db session))
       (filter (\<lambda>c. ch_story_id c = story_id session) (characters db))"

text \<open>
  \<open>rnd\<close> is the draw for the character and \<open>new_id\<close> the key the store gives the inserted
  row. An index outside the list would make \<^verbatim>\<open>randomCharacter\<close> undefined and the read
  of its \<^verbatim>\<open>id\<close> throw, which the handler catches and reports.
\<close>

definition joinGame ::
  "uuid \<Rightarrow> real \<Rightarrow> uuid \<Rightarrow> string \<Rightarrow> string \<Rightarrow> database \<Rightarrow>
   (rejection + join_ok) \<times> database" where
  "joinGame new_id rnd user sessionCode pw db =
     (if trim sessionCode = [] then (Inl EmptyCode, db)
      else case resolve_session db sessionCode of
        None \<Rightarrow> (Inl GameNotFound, db)
      | Some session \<Rightarrow>
          if truthy_string (password session) \<and> password session \<noteq> Some pw
          then (Inl IncorrectPassword, db)
          else if status session \<noteq> Waiting then (Inl AlreadyInProgress, db)
          else
            (case existingPlayer db session user of
               Some p \<Rightarrow> (Inr (AlreadyJoined session p), db)
             | None \<Rightarrow>
                 if game_full db session then (Inl GameFull, db)
                 else
                   let available = availableCharacters db session in
                   if length available = 0 then (Inl NoCharactersAvailable, db)
                   else
                     let i = random_index rnd (length available) in
                     if i < 0 \<or> int (length available) \<le> i then (Inl Thrown, db)
                     else
                       let randomCharacter = available ! nat i;
                           player = \<lparr>gp_id = new_id, session_id = gs_id session,
                                     user_id = user, character_id = ch_id randomCharacter,
                                     role = Detective\<rparr>
                       in (Inr (Joined session player),
                           db\<lparr>game_players := game_players db @ [player]\<rparr>)))"

section \<open>Invariants, the specification's error kinds, auxiliary functions\<close>

text \<open>No two players of one session hold the same character.\<close>

definition unique_characters :: "database \<Rightarrow> bool" where
  "unique_characters db = distinct (map (\<lambda>p. (session_id p, character_id p)) (game_players db))"

text \<open>At most one vote for each pair of a session and a voter.\<close>

definition one_vote_per_voter :: "database \<Rightarrow> bool" where
  "one_vote_per_voter db = distinct (map (\<lambda>v. (v_session_id v, voter_id v)) (votes db))"

text \<open>
  The guards of \<^const>\<open>joinGame\<close> that come before the character is drawn, collected: the
  request reaches the draw for \<open>session\<close> exactly when all of them let it through.
\<close>

definition reaches_draw :: "uuid \<Rightarrow> string \<Rightarrow> string \<Rightarrow> database \<Rightarrow> game_session \<Rightarrow> bool" where
  "reaches_draw user sessionCode pw db session =
     (trim sessionCode \<noteq> [] \<and>
      resolve_session db sessionCode = Some session \<and>
      \<not> (truthy_string (password session) \<and> password session \<noteq> Some pw) \<and>
      status session = Waiting \<and>
      existingPlayer db session user = None \<and>
      \<not> game_full db session)"

text \<open>
  The row a joining user gets when the draw picks element \<open>i\<close> of the available
  characters.
\<close>

definition drawn_player :: "uuid \<Rightarrow> uuid \<Rightarrow> database \<Rightarrow> game_session \<Rightarrow> nat \<Rightarrow> game_player" where
  "drawn_player new_id user db session i =
     \<lparr>gp_id = new_id, session_id = gs_id session, user_id = user,
      character_id = ch_id (availableCharacters db session ! i), role = Detective\<rparr>"

text \<open>
  What the loop of \<^const>\<open>assign_roles\<close> does to a single row \<open>q\<close> of the table:
  the updates whose key is the row's own are applied to it in turn.
\<close>

fun role_after :: "int \<Rightarrow> nat \<Rightarrow> game_player list \<Rightarrow> game_player \<Rightarrow> game_player" where
  "role_after k i [] q = q"
| "role_after k i (p # ps) q =
     role_after k (Suc i) ps
       (if gp_id q = gp_id p then q\<lparr>role := (if int i = k then Murderer else Detective)\<rparr>
        else q)"

text \<open>
  The error kinds of the specification. The code has no such classification, it shows a
  message; this is the reading of the specification's list of kinds on the messages,
  and \<open>None\<close> where that list is silent.
\<close>

datatype error_kind = NotFound | Unauthorized | Conflict | ValidationFailure

fun spec_error_kind :: "rejection \<Rightarrow> error_kind option" where
  "spec_error_kind GameNotFound = Some NotFound"
| "spec_error_kind NotHost = Some Unauthorized"
| "spec_error_kind AlreadyVoted = Some Unauthorized"
| "spec_error_kind IncorrectPassword = Some Conflict"
| "spec_error_kind GameFull = Some Conflict"
| "spec_error_kind AlreadyInProgress = Some Conflict"
| "spec_error_kind NoCharactersAvailable = Some Conflict"
| "spec_error_kind NotEnoughPlayers = Some ValidationFailure"
| "spec_error_kind EmptyCode = None"
| "spec_error_kind Thrown = None"

section \<open>A sample store\<close>

text \<open>
  One story for three players with its three characters and two clues of round 1, one
  password-protected session hosted by alice, and its three players.
\<close>

definition ex_story :: story where
  "ex_story = \<lparr>st_id = ''story-1'', st_title = ''The Manor'', min_players = 3,
     max_players = 3, total_rounds = 3\<rparr>"

definition ex_characters :: "character list" where
  "ex_characters =
     [\<lparr>ch_id = ''ch-1'', ch_story_id = ''story-1'', ch_name = ''Butler''\<rparr>,
      \<lparr>ch_id = ''ch-2'', ch_story_id = ''story-1'', ch_name = ''Cook''\<rparr>,
      \<lparr>ch_id = ''ch-3'', ch_story_id = ''story-1'', ch_name = ''Heir''\<rparr>]"

definition ex_public_clue :: clue where
  "ex_public_clue = \<lparr>cl_id = ''cl-1'', cl_story_id = ''story-1'', round_number = 1,
     is_for_murderer = Some False, cl_title = ''Footprints'', cl_content = ''Mud on the stairs''\<rparr>"

definition ex_private_clue :: clue where
  "ex_private_clue = \<lparr>cl_id = ''cl-2'', cl_story_id = ''story-1'', round_number = 1,
     is_for_murderer = Some True, cl_title = ''Alibi'', cl_content = ''You were seen''\<rparr>"

definition ex_session :: game_session where
  "ex_session = \<lparr>gs_id = ''sess-1'', host_id = ''alice'', story_id = ''story-1'',
     session_code = ''ABCD'', password = Some ''secret'', status = Waiting,
     current_round = 0, max_rounds = 3\<rparr>"

definition alice :: game_player where
  "alice = \<lparr>gp_id = ''gp-1'', session_id = ''sess-1'', user_id = ''alice'',
     character_id = ''ch-1'', role = Detective\<rparr>"

definition bob :: game_player where
  "bob = \<lparr>gp_id = ''gp-2'', session_id = ''sess-1'', user_id = ''bob'',
     character_id = ''ch-2'', role = Detective\<rparr>"

definition carol :: game_player where
  "carol = \<lparr>gp_id = ''gp-3'', session_id = ''sess-1'', user_id = ''carol'',
     character_id = ''ch-3'', role = Detective\<rparr>"

definition ex_db :: database where
  "ex_db = \<lparr>stories = [ex_story], characters = ex_characters,
     clues = [ex_public_clue, ex_private_clue], game_sessions = [ex_session],
     game_players = [alice, bob, carol], votes = []\<rparr>"

definition ex_db_two :: database where
  "ex_db_two = ex_db\<lparr>game_players := [alice, bob]\<rparr>"

definition ex_votes :: "vote list" where
  "ex_votes =
     [\<lparr>v_id = ''v-1'', v_session_id = ''sess-1'', voter_id = ''bob'', accused_id = ''carol''\<rparr>,
      \<lparr>v_id = ''v-2'', v_session_id = ''sess-1'', voter_id = ''alice'', accused_id = ''carol''\<rparr>,
      \<lparr>v_id = ''v-3'', v_session_id = ''sess-1'', voter_id = ''carol'', accused_id = ''alice''\<rparr>]"

text \<open>
  A second session of the same story, whose only player holds the third character, and
  a store in which alice is alone in the first session.
\<close>

definition ex_other_session :: game_session where
  "ex_other_session = \<lparr>gs_id = ''sess-2'', host_id = ''zed'', story_id = ''story-1'',
     session_code = ''EFGH'', password = None, status = Waiting,
     current_round = 0, max_rounds = 3\<rparr>"

definition zed :: game_player where
  "zed = \<lparr>gp_id = ''gp-9'', session_id = ''sess-2'', user_id = ''zed'',
     character_id = ''ch-3'', role = Detective\<rparr>"

definition ex_db_one :: database where
  "ex_db_one = ex_db\<lparr>game_sessions := [ex_session, ex_other_session],
     game_players := [alice, zed]\<rparr>"


section \<open>Facts about the sample store\<close>

lemmas ex_defs = ex_db_def ex_db_two_def ex_db_one_def ex_other_session_def zed_def ex_story_def ex_characters_def ex_public_clue_def
  ex_private_clue_def ex_session_def alice_def bob_def carol_def ex_votes_def

section \<open>Clue disclosure\<close>

lemma mem_visibleClues:
  "c \<in> set (visibleClues db st session player) \<longleftrightarrow>
     (\<exists>s. st = Some s \<and> c \<in> set (clues db) \<and> cl_story_id c = st_id s) \<and>
     round_number c \<le> current_round session \<and>
     (is_for_murderer c = Some True \<longrightarrow> role player = Murderer)"
  by (cases "is_for_murderer c" rule: truthy_bool.cases)
     (auto simp: visibleClues_def cluesWithVisibility_def cluesData_def isVisible_def
        isMurderer_def image_iff split: option.splits)

text \<open>
  C1, as the code has it. A clue is shown exactly when it belongs to the loaded story,
  its round is not after the current round, and, if it is flagged for the murderer, the
  viewer is the murderer. A detective is therefore never shown a flagged clue; an
  unflagged clue (flag false or null) is shown to every viewer, so whatever a detective
  sees the murderer sees too.
\<close>

theorem visibleClues_role_gate:
  "(c \<in> set (visibleClues db st session player) \<longleftrightarrow>
      (\<exists>s. st = Some s \<and> c \<in> set (clues db) \<and> cl_story_id c = st_id s) \<and>
      round_number c \<le> current_round session \<and>
      (is_for_murderer c = Some True \<longrightarrow> role player = Murderer)) \<and>
   (role player = Detective \<longrightarrow>
      (\<forall>d\<in>set (visibleClues db st session player). is_for_murderer d \<noteq> Some True)) \<and>
   (role player = Detective \<and> role other = Murderer \<longrightarrow>
      set (visibleClues db st session player) \<subseteq> set (visibleClues db st session other))"
proof -
  have m: "d \<in> set (visibleClues db st session p) \<longleftrightarrow>
      (\<exists>s. st = Some s \<and> d \<in> set (clues db) \<and> cl_story_id d = st_id s) \<and>
      round_number d \<le> current_round session \<and>
      (is_for_murderer d = Some True \<longrightarrow> role p = Murderer)" for d p
    by (rule mem_visibleClues)
  have "role player = Detective \<longrightarrow>
      (\<forall>d\<in>set (visibleClues db st session player). is_for_murderer d \<noteq> Some True)"
    by (auto simp: m)
  moreover have "role player = Detective \<and> role other = Murderer \<longrightarrow>
      set (visibleClues db st session player) \<subseteq> set (visibleClues db st session other)"
    by (auto simp: m)
  ultimately show ?thesis using m[of c player] by blast
qed

lemma ex_visible_murderer:
  "visibleClues ex_db (Some ex_story) (ex_session\<lparr>current_round := 1\<rparr>) (carol\<lparr>role := Murderer\<rparr>)
     = [ex_public_clue, ex_private_clue]"
  by (simp add: visibleClues_def cluesWithVisibility_def cluesData_def isVisible_def
        isMurderer_def ex_defs)

lemma ex_visible_detective:
  "visibleClues ex_db (Some ex_story) (ex_session\<lparr>current_round := 1\<rparr>) alice = [ex_public_clue]"
  by (simp add: visibleClues_def cluesWithVisibility_def cluesData_def isVisible_def
        isMurderer_def ex_defs)

text \<open>
  C1 as stated says that a murderer sees only flagged clues and that the two streams are
  disjoint. In the sample store the clue of round 1 whose flag is false is shown to the
  murderer in round 1, and to a detective as well.
\<close>

theorem murderer_sees_unflagged_clue:
  "role (carol\<lparr>role := Murderer\<rparr>) = Murderer \<and>
   is_for_murderer ex_public_clue = Some False \<and>
   ex_public_clue \<in> set (visibleClues ex_db (Some ex_story) (ex_session\<lparr>current_round := 1\<rparr>)
                            (carol\<lparr>role := Murderer\<rparr>)) \<and>
   ex_public_clue \<in> set (visibleClues ex_db (Some ex_story) (ex_session\<lparr>current_round := 1\<rparr>) alice)"
  by (simp add: ex_visible_murderer ex_visible_detective) (simp add: ex_defs)

text \<open>
  The gate at work in the sample store: the flagged clue is hidden from the detective
  and shown to the murderer, and the detective's clues are among the murderer's.
\<close>

theorem visibleClues_role_gate_witness:
  "role alice = Detective \<and> role (carol\<lparr>role := Murderer\<rparr>) = Murderer \<and>
   is_for_murderer ex_private_clue = Some True \<and>
   ex_private_clue \<notin> set (visibleClues ex_db (Some ex_story) (ex_session\<lparr>current_round := 1\<rparr>) alice) \<and>
   ex_private_clue \<in> set (visibleClues ex_db (Some ex_story) (ex_session\<lparr>current_round := 1\<rparr>)
                             (carol\<lparr>role := Murderer\<rparr>)) \<and>
   set (visibleClues ex_db (Some ex_story) (ex_session\<lparr>current_round := 1\<rparr>) alice)
     \<subseteq> set (visibleClues ex_db (Some ex_story) (ex_session\<lparr>current_round := 1\<rparr>)
              (carol\<lparr>role := Murderer\<rparr>))"
proof -
  have r: "role alice = Detective" "role (carol\<lparr>role := Murderer\<rparr>) = Murderer"
    "is_for_murderer ex_private_clue = Some True"
    by (simp_all add: ex_defs)
  note g = visibleClues_role_gate[of _ ex_db "Some ex_story" "ex_session\<lparr>current_round := 1\<rparr>"]
  have "ex_private_clue \<notin> set (visibleClues ex_db (Some ex_story) (ex_session\<lparr>current_round := 1\<rparr>) alice)"
    using g[of ex_private_clue alice] r by auto
  moreover have "ex_private_clue \<in> set (visibleClues ex_db (Some ex_story)
      (ex_session\<lparr>current_round := 1\<rparr>) (carol\<lparr>role := Murderer\<rparr>))"
    using g[of ex_private_clue "carol\<lparr>role := Murderer\<rparr>"] r
    by (simp add: ex_db_def) (simp add: ex_defs)
  moreover have "set (visibleClues ex_db (Some ex_story) (ex_session\<lparr>current_round := 1\<rparr>) alice)
     \<subseteq> set (visibleClues ex_db (Some ex_story) (ex_session\<lparr>current_round := 1\<rparr>)
              (carol\<lparr>role := Murderer\<rparr>))"
    using g[of ex_private_clue alice "carol\<lparr>role := Murderer\<rparr>"] r by blast
  ultimately show ?thesis using r by simp
qed

section \<open>Vote tally and outcome\<close>

lemma voteCounts_sorted: "sorted (map (\<lambda>e. - int (snd e)) (voteCounts players vs))"
  unfolding voteCounts_def by (rule sorted_sort_key)

lemma voteCounts_set: "set (voteCounts players vs) = (\<lambda>p. (p, voteCount vs p)) ` set players"
  unfolding voteCounts_def by simp

lemma voteCounts_Nil: "voteCounts players vs = [] \<longleftrightarrow> players = []"
  by (metis voteCounts_def length_sort length_map length_0_conv)

lemma top_is_max:
  assumes "voteCounts players vs = m # rest"
  shows "fst m \<in> set players \<and> snd m = voteCount vs (fst m) \<and> (\<forall>q\<in>set players. voteCount vs q \<le> snd m)"
proof -
  have "m \<in> set (voteCounts players vs)" using assms by simp
  then have 1: "fst m \<in> set players \<and> snd m = voteCount vs (fst m)"
    by (auto simp: voteCounts_set)
  have "\<forall>e\<in>set (voteCounts players vs). - int (snd m) \<le> - int (snd e)"
    using voteCounts_sorted[of players vs] assms by auto
  then have "\<forall>q\<in>set players. voteCount vs q \<le> snd m"
    by (auto simp: voteCounts_set)
  with 1 show ?thesis by simp
qed

lemma detectivesWon_no_votes: "\<not> detectivesWon players []"
proof (cases "voteCounts players []")
  case Nil
  then show ?thesis by (simp add: detectivesWon_def)
next
  case (Cons m rest)
  then have "m \<in> set (voteCounts players [])" by simp
  then have "snd m = 0" by (auto simp: voteCounts_set voteCount_def)
  with Cons show ?thesis by (simp add: detectivesWon_def)
qed

lemma top_is_first_max:
  assumes "voteCounts players vs = m # rest"
  shows "\<exists>before after. players = before @ fst m # after \<and>
           (\<forall>q\<in>set before. voteCount vs q < snd m)"
proof -
  let ?f = "\<lambda>e::game_player \<times> nat. - int (snd e)"
  let ?xs = "map (\<lambda>p. (p, voteCount vs p)) players"
  have "filter (\<lambda>e. ?f e = ?f m) (sort_key ?f ?xs) = filter (\<lambda>e. ?f e = ?f m) ?xs"
    by (rule sort_key_stable)
  then have "filter (\<lambda>e. ?f e = ?f m) ?xs = m # filter (\<lambda>e. ?f e = ?f m) rest"
    using assms by (simp add: voteCounts_def)
  then have "\<exists>us vs'. ?xs = us @ m # vs' \<and> (\<forall>u\<in>set us. ?f u \<noteq> ?f m)"
    by (auto simp: filter_eq_Cons_iff)
  then obtain us vs' where split: "?xs = us @ m # vs'" and ne: "\<forall>u\<in>set us. ?f u \<noteq> ?f m"
    by blast
  define before where "before = take (length us) players"
  define after where "after = drop (Suc (length us)) players"
  have lus: "length us < length players"
    using arg_cong[OF split, of length] by simp
  have us: "us = map (\<lambda>p. (p, voteCount vs p)) before"
    using arg_cong[OF split, of "take (length us)"] by (simp add: before_def take_map)
  have "?xs ! length us = m" using split by simp
  then have m: "m = (players ! length us, voteCount vs (players ! length us))"
    using lus by simp
  have pl: "players = before @ fst m # after"
    unfolding before_def after_def using m lus by (simp add: id_take_nth_drop[symmetric])
  have "voteCount vs q < snd m" if "q \<in> set before" for q
  proof -
    from that have qp: "q \<in> set players" by (auto simp: before_def dest: in_set_takeD)
    from that us have "(q, voteCount vs q) \<in> set us" by auto
    with ne have "voteCount vs q \<noteq> snd m" by auto
    moreover have "voteCount vs q \<le> snd m" using top_is_max[OF assms] qp by blast
    ultimately show ?thesis by simp
  qed
  with pl show ?thesis by blast
qed

text \<open>
  C2. The detectives win exactly when the entry at position 0 of the sorted tally is a
  murderer with at least one vote. That entry carries the highest count of all players
  and, among the players with that count, is the first in listing order (the sort is
  stable). With no votes at all, or no players, the murderer wins.
\<close>

theorem detectivesWon_iff_top_voted_murderer:
  "(detectivesWon players vs \<longleftrightarrow>
      (\<exists>mostVoted rest. voteCounts players vs = mostVoted # rest \<and>
         role (fst mostVoted) = Murderer \<and> 0 < snd mostVoted)) \<and>
   (\<forall>mostVoted rest. voteCounts players vs = mostVoted # rest \<longrightarrow>
      snd mostVoted = voteCount vs (fst mostVoted) \<and>
      (\<forall>q\<in>set players. voteCount vs q \<le> snd mostVoted) \<and>
      (\<exists>before after. players = before @ fst mostVoted # after \<and>
         (\<forall>q\<in>set before. voteCount vs q < snd mostVoted))) \<and>
   (vs = [] \<longrightarrow> \<not> detectivesWon players vs) \<and>
   (players = [] \<longrightarrow> \<not> detectivesWon players vs)"
proof -
  have 1: "detectivesWon players vs \<longleftrightarrow>
      (\<exists>mostVoted rest. voteCounts players vs = mostVoted # rest \<and>
         role (fst mostVoted) = Murderer \<and> 0 < snd mostVoted)"
    by (cases "voteCounts players vs") (simp_all add: detectivesWon_def)
  have 2: "\<forall>mostVoted rest. voteCounts players vs = mostVoted # rest \<longrightarrow>
      snd mostVoted = voteCount vs (fst mostVoted) \<and>
      (\<forall>q\<in>set players. voteCount vs q \<le> snd mostVoted) \<and>
      (\<exists>before after. players = before @ fst mostVoted # after \<and>
         (\<forall>q\<in>set before. voteCount vs q < snd mostVoted))"
    using top_is_max top_is_first_max by blast
  have 3: "vs = [] \<longrightarrow> \<not> detectivesWon players vs"
    using detectivesWon_no_votes by blast
  have 4: "players = [] \<longrightarrow> \<not> detectivesWon players vs"
    by (simp add: detectivesWon_def voteCounts_def)
  from 1 2 3 4 show ?thesis by blast
qed

lemma ex_tally:
  "voteCounts [alice, bob, carol\<lparr>role := Murderer\<rparr>] ex_votes
     = [(carol\<lparr>role := Murderer\<rparr>, 2), (alice, 1), (bob, 0)]"
  by (simp add: voteCounts_def voteCount_def ex_defs)

text \<open>
  Three players, two votes for the murderer and one for a detective: the murderer heads
  the tally and the detectives win; with no votes the murderer wins.
\<close>

theorem detectivesWon_iff_top_voted_murderer_witness:
  "voteCounts [alice, bob, carol\<lparr>role := Murderer\<rparr>] ex_votes
     = [(carol\<lparr>role := Murderer\<rparr>, 2), (alice, 1), (bob, 0)] \<and>
   detectivesWon [alice, bob, carol\<lparr>role := Murderer\<rparr>] ex_votes \<and>
   voteCount ex_votes (carol\<lparr>role := Murderer\<rparr>) = 2 \<and>
   \<not> detectivesWon [alice, bob, carol\<lparr>role := Murderer\<rparr>] []"
proof -
  let ?ps = "[alice, bob, carol\<lparr>role := Murderer\<rparr>]"
  note t = detectivesWon_iff_top_voted_murderer[of ?ps ex_votes]
  have a: "detectivesWon ?ps ex_votes"
    using t[THEN conjunct1] ex_tally by simp
  have "snd (carol\<lparr>role := Murderer\<rparr>, 2::nat) = voteCount ex_votes (fst (carol\<lparr>role := Murderer\<rparr>, 2::nat))"
    using t[THEN conjunct2, THEN conjunct1] ex_tally by blast
  then have b: "voteCount ex_votes (carol\<lparr>role := Murderer\<rparr>) = 2" by simp
  have c: "\<not> detectivesWon ?ps []"
    using detectivesWon_iff_top_voted_murderer[of ?ps "[]", THEN conjunct2, THEN conjunct2, THEN conjunct1]
    by simp
  from a b c ex_tally show ?thesis by simp
qed

section \<open>Role assignment at the start\<close>

lemma role_after_Nil: "role_after k i [] = (\<lambda>q. q)"
  by (rule ext) simp

lemma assign_roles_rows:
  "game_players (assign_roles k i ps db) = map (role_after k i ps) (game_players db)"
  by (induction ps arbitrary: i db) (simp_all add: update_player_role_def role_after_Nil)

lemma assign_roles_other_tables:
  "game_sessions (assign_roles k i ps db) = game_sessions db \<and>
   votes (assign_roles k i ps db) = votes db \<and>
   stories (assign_roles k i ps db) = stories db \<and>
   characters (assign_roles k i ps db) = characters db \<and>
   clues (assign_roles k i ps db) = clues db"
  by (induction ps arbitrary: i db) (simp_all add: update_player_role_def)

lemma role_after_keeps:
  "gp_id (role_after k i ps q) = gp_id q \<and> session_id (role_after k i ps q) = session_id q
   \<and> user_id (role_after k i ps q) = user_id q \<and> character_id (role_after k i ps q) = character_id q"
  by (induction ps arbitrary: i q) simp_all

lemma role_after_untouched:
  "gp_id q \<notin> gp_id ` set ps \<Longrightarrow> role_after k i ps q = q"
  by (induction ps arbitrary: i) auto

lemma role_after_at:
  "distinct (map gp_id ps) \<Longrightarrow> j < length ps \<Longrightarrow> gp_id q = gp_id (ps ! j) \<Longrightarrow>
   role (role_after k i ps q) = (if int (i + j) = k then Murderer else Detective)"
proof (induction ps arbitrary: i j q)
  case Nil
  then show ?case by simp
next
  case (Cons p ps)
  show ?case
  proof (cases j)
    case 0
    with Cons.prems have "gp_id q = gp_id p" by simp
    moreover from Cons.prems have "gp_id p \<notin> gp_id ` set ps" by simp
    ultimately show ?thesis using 0 by (simp add: role_after_untouched)
  next
    case (Suc j')
    with Cons.prems have j': "j' < length ps" and q: "gp_id q = gp_id (ps ! j')" by simp_all
    then have "gp_id q \<in> gp_id ` set ps" by (metis imageI nth_mem)
    with Cons.prems have "gp_id q \<noteq> gp_id p" by auto
    moreover from Cons.prems have "distinct (map gp_id ps)" by simp
    ultimately show ?thesis using Cons.IH[OF _ j' q, of "Suc i"] Suc by simp
  qed
qed

lemma random_index_range:
  assumes "0 \<le> rnd" "rnd < 1" "0 < n"
  shows "0 \<le> random_index rnd n \<and> random_index rnd n < int n"
proof -
  have "0 \<le> rnd * real n" using assms by simp
  moreover have "rnd * real n < real n" using assms by simp
  ultimately show ?thesis unfolding random_index_def by (simp add: floor_less_iff)
qed

lemma random_index_interval:
  assumes "0 < n"
  shows "random_index rnd n = int i \<longleftrightarrow> real i / real n \<le> rnd \<and> rnd < (real i + 1) / real n"
proof -
  have "random_index rnd n = int i \<longleftrightarrow> real i \<le> rnd * real n \<and> rnd * real n < real i + 1"
    unfolding random_index_def by (simp add: floor_eq_iff)
  also have "\<dots> \<longleftrightarrow> real i / real n \<le> rnd \<and> rnd < (real i + 1) / real n"
    using assms by (simp add: pos_divide_le_eq pos_less_divide_eq)
  finally show ?thesis .
qed

lemma one_row_per_key:
  "distinct (map f xs) \<Longrightarrow> x \<in> set xs \<Longrightarrow> length (filter (\<lambda>q. f q = f x) xs) = 1"
proof (induction xs)
  case Nil
  then show ?case by simp
next
  case (Cons a xs)
  show ?case
  proof (cases "f a = f x")
    case True
    from Cons.prems have "f a \<notin> f ` set xs" by simp
    with True have "\<forall>q\<in>set xs. f q \<noteq> f x" by (metis imageI)
    then have "filter (\<lambda>q. f q = f x) xs = []" by (simp add: filter_empty_conv)
    with True show ?thesis by simp
  next
    case False
    with Cons show ?thesis by auto
  qed
qed

lemma roles_partition:
  "length (filter (\<lambda>p. role p = Detective) ps) + length (filter (\<lambda>p. role p = Murderer) ps) = length ps"
proof (induction ps)
  case Nil
  then show ?case by simp
next
  case (Cons a ps)
  then show ?case by (cases "role a") simp_all
qed

lemma startGame_rows:
  assumes "startGame shuffled rnd user session players st db = (Inr (), db')"
  shows "session_players db' sid = map (role_after (random_index rnd (length shuffled)) 0 shuffled) (session_players db sid)"
proof -
  have "game_players db' = map (role_after (random_index rnd (length shuffled)) 0 shuffled) (game_players db)"
    using assms by (auto simp: startGame_def Let_def update_session_def assign_roles_rows split: if_splits)
  then show ?thesis
    by (simp add: session_players_def filter_map o_def role_after_keeps)
qed

lemma find_update_session:
  assumes "\<And>s. gs_id (f s) = gs_id s"
  shows "find_session (update_session sid f db) sid' =
           (if sid' = sid then map_option f (find_session db sid') else find_session db sid')"
proof -
  have "find (\<lambda>s. gs_id s = sid') (map (\<lambda>s. if gs_id s = sid then f s else s) xs) =
          (if sid' = sid then map_option f (find (\<lambda>s. gs_id s = sid') xs)
           else find (\<lambda>s. gs_id s = sid') xs)" for xs
    by (induction xs) (auto simp: assms)
  then show ?thesis by (simp add: find_session_def update_session_def)
qed

lemma update_session_players: "game_players (update_session sid f db) = game_players db"
  by (simp add: update_session_def)

lemma ex_start:
  "startGame [bob, carol, alice] (1/2) ''alice'' ex_session [alice, bob, carol] (Some ex_story) ex_db
     = (Inr (), ex_db\<lparr>game_players := [alice, bob, carol\<lparr>role := Murderer\<rparr>],
                      game_sessions := [ex_session\<lparr>status := InProgress, current_round := 1\<rparr>]\<rparr>)"
  by (simp add: startGame_def required_players_def random_index_def update_session_def
        update_player_role_def Let_def ex_defs)

lemma ex_find_session: "find_session ex_db (gs_id ex_session) = Some ex_session"
  by (simp add: find_session_def ex_db_def)

lemma ex_session_players: "session_players ex_db (gs_id ex_session) = [alice, bob, carol]"
  by (simp add: session_players_def ex_defs)

lemma ex_keys: "distinct (map gp_id (game_players ex_db))"
  by (simp add: ex_defs)

text \<open>
  C3. Take a start that passes the player-count check, whatever rearrangement the
  shuffle produced and whatever number below 1 was drawn for the index. If the lobby's
  player list is the session's rows of the store, the rows have distinct keys and the
  required minimum is not negative, then afterwards exactly one player of the session
  is the murderer and all the others are detectives.
\<close>

theorem startGame_exactly_one_murderer:
  assumes ok: "startGame shuffled rnd user session players st db = (Inr (), db')"
    and perm: "mset shuffled = mset players"
    and rnd: "0 \<le> rnd" "rnd < 1"
    and sync: "players = session_players db (gs_id session)"
    and key: "distinct (map gp_id (game_players db))"
    and mp: "0 \<le> required_players st"
  shows "length (filter (\<lambda>p. role p = Murderer) (session_players db' (gs_id session))) = 1 \<and>
         length (filter (\<lambda>p. role p = Detective) (session_players db' (gs_id session))) =
           length (session_players db' (gs_id session)) - 1 \<and>
         length (session_players db' (gs_id session)) = length players"
proof -
  let ?n = "length shuffled"
  let ?k = "random_index rnd ?n"
  let ?g = "role_after ?k 0 shuffled"
  have rows: "session_players db' (gs_id session) = map ?g players"
    using startGame_rows[OF ok] sync by simp
  have len: "?n = length players" using perm by (metis size_mset)
  have "required_players st \<le> int (length players)"
    using ok by (auto simp: startGame_def split: if_splits)
  moreover have "required_players st \<noteq> 0"
    by (auto simp: required_players_def split: option.splits)
  ultimately have "0 < int (length players)" using mp by linarith
  then have pos: "0 < ?n" using len by simp
  have k: "0 \<le> ?k" "?k < int ?n" using random_index_range[OF rnd pos] by simp_all
  define m where "m = shuffled ! nat ?k"
  have m_in: "m \<in> set players"
    using k perm unfolding m_def by (metis mset_eq_setD nat_less_iff nth_mem)
  have dp: "distinct (map gp_id players)"
    unfolding sync session_players_def using key by (rule distinct_map_filter)
  have ds: "distinct (map gp_id shuffled)"
    using dp perm by (metis mset_eq_imp_distinct_iff mset_map)
  have role_g: "role (?g q) = Murderer \<longleftrightarrow> gp_id q = gp_id m" if "q \<in> set players" for q
  proof -
    from that perm have "q \<in> set shuffled" by (metis mset_eq_setD)
    then obtain j where j: "j < ?n" "shuffled ! j = q" by (auto simp: in_set_conv_nth)
    then have "role (?g q) = (if int (0 + j) = ?k then Murderer else Detective)"
      using role_after_at[OF ds, of j q ?k 0] by simp
    moreover have "int j = ?k \<longleftrightarrow> gp_id q = gp_id m"
    proof
      assume "int j = ?k"
      then have "nat ?k = j" by (metis nat_int)
      then show "gp_id q = gp_id m" using j unfolding m_def by simp
    next
      assume "gp_id q = gp_id m"
      moreover have kn: "nat ?k < ?n" using k by simp
      ultimately have "map gp_id shuffled ! j = map gp_id shuffled ! nat ?k"
        using j unfolding m_def by simp
      then have "j = nat ?k"
        using nth_eq_iff_index_eq[OF ds, of j "nat ?k"] j kn by simp
      then show "int j = ?k" using k by simp
    qed
    ultimately show ?thesis by simp
  qed
  have "filter (\<lambda>p. role p = Murderer) (map ?g players) = map ?g (filter (\<lambda>q. gp_id q = gp_id m) players)"
    using role_g by (simp add: filter_map o_def cong: filter_cong)
  then have one: "length (filter (\<lambda>p. role p = Murderer) (map ?g players)) = 1"
    using one_row_per_key[OF dp m_in] by simp
  show ?thesis
    using one roles_partition[of "map ?g players"] rows by simp
qed

text \<open>
  The sample session started by its host with the shuffle (bob, carol, alice) and the
  draw 1/2: index 1 of the shuffled list, carol, becomes the murderer.
\<close>

theorem startGame_exactly_one_murderer_witness:
  "startGame [bob, carol, alice] (1/2) ''alice'' ex_session [alice, bob, carol] (Some ex_story) ex_db
     = (Inr (), ex_db\<lparr>game_players := [alice, bob, carol\<lparr>role := Murderer\<rparr>],
                      game_sessions := [ex_session\<lparr>status := InProgress, current_round := 1\<rparr>]\<rparr>) \<and>
   mset [bob, carol, alice] = mset [alice, bob, carol] \<and>
   (0::real) \<le> 1/2 \<and> (1/2::real) < 1 \<and>
   [alice, bob, carol] = session_players ex_db (gs_id ex_session) \<and>
   distinct (map gp_id (game_players ex_db)) \<and>
   0 \<le> required_players (Some ex_story) \<and>
   length (filter (\<lambda>p. role p = Murderer)
     (session_players (ex_db\<lparr>game_players := [alice, bob, carol\<lparr>role := Murderer\<rparr>],
                      game_sessions := [ex_session\<lparr>status := InProgress, current_round := 1\<rparr>]\<rparr>)
        (gs_id ex_session))) = 1 \<and>
   length (filter (\<lambda>p. role p = Detective)
     (session_players (ex_db\<lparr>game_players := [alice, bob, carol\<lparr>role := Murderer\<rparr>],
                      game_sessions := [ex_session\<lparr>status := InProgress, current_round := 1\<rparr>]\<rparr>)
        (gs_id ex_session))) = 2"
proof -
  have perm: "mset [bob, carol, alice] = mset [alice, bob, carol]" by (simp add: add.commute)
  have rnd: "(0::real) \<le> 1/2" "(1/2::real) < 1" by simp_all
  have sync: "[alice, bob, carol] = session_players ex_db (gs_id ex_session)"
    by (simp add: ex_session_players)
  have mp: "0 \<le> required_players (Some ex_story)"
    by (simp add: required_players_def ex_story_def)
  let ?db' = "ex_db\<lparr>game_players := [alice, bob, carol\<lparr>role := Murderer\<rparr>],
                      game_sessions := [ex_session\<lparr>status := InProgress, current_round := 1\<rparr>]\<rparr>"
  note one = startGame_exactly_one_murderer[OF ex_start perm rnd sync ex_keys mp]
  have a: "length (filter (\<lambda>p. role p = Murderer) (session_players ?db' (gs_id ex_session))) = 1"
    using one by simp
  have "length (session_players ?db' (gs_id ex_session)) = 3" using one by simp
  then have b: "length (filter (\<lambda>p. role p = Detective) (session_players ?db' (gs_id ex_session))) = 2"
    using one by simp
  show ?thesis
    by (intro conjI ex_start perm rnd sync ex_keys mp a b)
qed

text \<open>
  C10. A start that goes through leaves the session's row with status in progress and
  current round 1, both written by the same update; the other columns are kept.
\<close>

theorem startGame_sets_round_one:
  assumes run: "startGame shuffled rnd user session players st db = (Inr (), db')"
    and row: "find_session db (gs_id session) = Some s"
  shows "find_session db' (gs_id session) = Some (s\<lparr>status := InProgress, current_round := 1\<rparr>)"
proof -
  let ?db1 = "assign_roles (random_index rnd (length shuffled)) 0 shuffled db"
  have "db' = update_session (gs_id session) (\<lambda>s. s\<lparr>status := InProgress, current_round := 1\<rparr>) ?db1"
    using run by (auto simp: startGame_def Let_def split: if_splits)
  moreover have "find_session ?db1 (gs_id session) = Some s"
    using row by (simp add: find_session_def assign_roles_other_tables)
  ultimately show ?thesis by (simp add: find_update_session)
qed

text \<open>The sample session goes from waiting in round 0 to in progress in round 1.\<close>

theorem startGame_sets_round_one_witness:
  "startGame [bob, carol, alice] (1/2) ''alice'' ex_session [alice, bob, carol] (Some ex_story) ex_db
     = (Inr (), ex_db\<lparr>game_players := [alice, bob, carol\<lparr>role := Murderer\<rparr>],
                      game_sessions := [ex_session\<lparr>status := InProgress, current_round := 1\<rparr>]\<rparr>) \<and>
   find_session ex_db (gs_id ex_session) = Some ex_session \<and>
   status ex_session = Waiting \<and> current_round ex_session = 0 \<and>
   find_session (ex_db\<lparr>game_players := [alice, bob, carol\<lparr>role := Murderer\<rparr>],
                      game_sessions := [ex_session\<lparr>status := InProgress, current_round := 1\<rparr>]\<rparr>)
      (gs_id ex_session) = Some (ex_session\<lparr>status := InProgress, current_round := 1\<rparr>)"
  using startGame_sets_round_one[OF ex_start ex_find_session] ex_start ex_find_session
  by (simp add: ex_session_def)

text \<open>
  C9. With fewer players in the lobby than the story's minimum, the start is refused
  with the message for too few players (the specification's validation failure) and the
  store is left as it was: the session stays waiting and no role is written.
\<close>

theorem startGame_below_minimum_rejected:
  assumes "st = Some s" and "int (length players) < min_players s"
  shows "startGame shuffled rnd user session players st db = (Inl NotEnoughPlayers, db) \<and>
         spec_error_kind NotEnoughPlayers = Some ValidationFailure"
proof -
  have "min_players s \<noteq> 0" using assms(2) by auto
  then have "required_players st = min_players s" using assms(1) by (simp add: required_players_def)
  then show ?thesis using assms(2) by (simp add: startGame_def)
qed

text \<open>Two players in a story for at least three.\<close>

theorem startGame_below_minimum_rejected_witness:
  "int (length [alice, bob]) < min_players ex_story \<and>
   startGame [bob, alice] (1/2) ''alice'' ex_session [alice, bob] (Some ex_story) ex_db_two
     = (Inl NotEnoughPlayers, ex_db_two)"
proof -
  have "int (length [alice, bob]) < min_players ex_story" by (simp add: ex_story_def)
  from startGame_below_minimum_rejected[OF refl this] this show ?thesis by simp
qed

section \<open>Advancing the round\<close>

lemma nextRound_non_host:
  "\<not> isHost session user \<Longrightarrow> nextRound user session db = (Inl NotHost, db)"
  by (simp add: nextRound_def)

lemma endVoting_non_host:
  "\<not> isHost session user \<Longrightarrow> endVoting user session db = (Inl NotHost, db)"
  by (simp add: endVoting_def)

text \<open>
  C4. On a session in progress whose row the page holds, a round advance by the host
  raises the stored round by exactly 1; the stored status is voting exactly when the new
  round equals the maximum, and stays in progress for every smaller value. An advance
  attempted by anyone else changes nothing, so the stored round never decreases.
\<close>

theorem nextRound_advances_by_one:
  assumes snap: "find_session db (gs_id session) = Some session"
    and st: "status session = InProgress"
    and run: "nextRound user session db = (res, db')"
  shows "(isHost session user \<longrightarrow>
            res = Inr () \<and>
            (\<exists>s'. find_session db' (gs_id session) = Some s' \<and>
               current_round s' = current_round session + 1 \<and>
               max_rounds s' = max_rounds session \<and>
               (status s' = Voting \<longleftrightarrow> current_round s' = max_rounds s') \<and>
               (current_round s' < max_rounds s' \<longrightarrow> status s' = InProgress))) \<and>
         (\<not> isHost session user \<longrightarrow> res = Inl NotHost \<and> db' = db) \<and>
         (\<exists>s'. find_session db' (gs_id session) = Some s' \<and>
            current_round session \<le> current_round s')"
proof (cases "isHost session user")
  case False
  with run snap show ?thesis by (simp add: nextRound_def)
next
  case True
  define s' where "s' = session\<lparr>current_round := current_round session + 1,
     status := (if current_round session + 1 = max_rounds session then Voting else status session)\<rparr>"
  have res: "res = Inr ()" using run True by (auto simp: nextRound_def Let_def)
  have "db' = update_session (gs_id session)
          (\<lambda>s. s\<lparr>current_round := current_round session + 1,
                 status := (if current_round session + 1 = max_rounds session then Voting else status session)\<rparr>) db"
    using run True by (auto simp: nextRound_def Let_def)
  then have "find_session db' (gs_id session) = Some s'"
    using snap by (simp add: find_update_session s'_def)
  moreover have "current_round s' = current_round session + 1" "max_rounds s' = max_rounds session"
    "status s' = Voting \<longleftrightarrow> current_round s' = max_rounds s'"
    "current_round s' < max_rounds s' \<longrightarrow> status s' = InProgress"
    using st by (simp_all add: s'_def)
  ultimately show ?thesis using True res by simp
qed

lemma ex_round_two_row:
  "find_session (ex_db\<lparr>game_sessions := [ex_session\<lparr>status := InProgress, current_round := 2\<rparr>]\<rparr>)
     (gs_id (ex_session\<lparr>status := InProgress, current_round := 2\<rparr>))
   = Some (ex_session\<lparr>status := InProgress, current_round := 2\<rparr>)"
  by (simp add: find_session_def)

lemma ex_round_one_row:
  "find_session (ex_db\<lparr>game_sessions := [ex_session\<lparr>status := InProgress, current_round := 1\<rparr>]\<rparr>)
     (gs_id (ex_session\<lparr>status := InProgress, current_round := 1\<rparr>))
   = Some (ex_session\<lparr>status := InProgress, current_round := 1\<rparr>)"
  by (simp add: find_session_def)

lemma ex_next_round_two:
  "nextRound ''alice'' (ex_session\<lparr>status := InProgress, current_round := 2\<rparr>)
     (ex_db\<lparr>game_sessions := [ex_session\<lparr>status := InProgress, current_round := 2\<rparr>]\<rparr>)
   = (Inr (), ex_db\<lparr>game_sessions := [ex_session\<lparr>status := Voting, current_round := 3\<rparr>]\<rparr>)"
  by (simp add: nextRound_def isHost_def update_session_def Let_def ex_session_def ex_db_def)

lemma ex_next_round_one:
  "nextRound ''alice'' (ex_session\<lparr>status := InProgress, current_round := 1\<rparr>)
     (ex_db\<lparr>game_sessions := [ex_session\<lparr>status := InProgress, current_round := 1\<rparr>]\<rparr>)
   = (Inr (), ex_db\<lparr>game_sessions := [ex_session\<lparr>status := InProgress, current_round := 2\<rparr>]\<rparr>)"
  by (simp add: nextRound_def isHost_def update_session_def Let_def ex_session_def ex_db_def)

text \<open>
  With three rounds: the advance from round 2 reaches round 3 and opens the vote, the
  advance from round 1 reaches round 2 and stays in progress.
\<close>

theorem nextRound_advances_by_one_witness:
  "isHost (ex_session\<lparr>status := InProgress, current_round := 2\<rparr>) ''alice'' \<and>
   status (ex_session\<lparr>status := InProgress, current_round := 2\<rparr>) = InProgress \<and>
   nextRound ''alice'' (ex_session\<lparr>status := InProgress, current_round := 2\<rparr>)
     (ex_db\<lparr>game_sessions := [ex_session\<lparr>status := InProgress, current_round := 2\<rparr>]\<rparr>)
   = (Inr (), ex_db\<lparr>game_sessions := [ex_session\<lparr>status := Voting, current_round := 3\<rparr>]\<rparr>) \<and>
   nextRound ''alice'' (ex_session\<lparr>status := InProgress, current_round := 1\<rparr>)
     (ex_db\<lparr>game_sessions := [ex_session\<lparr>status := InProgress, current_round := 1\<rparr>]\<rparr>)
   = (Inr (), ex_db\<lparr>game_sessions := [ex_session\<lparr>status := InProgress, current_round := 2\<rparr>]\<rparr>) \<and>
   (\<exists>s'. find_session (ex_db\<lparr>game_sessions := [ex_session\<lparr>status := Voting, current_round := 3\<rparr>]\<rparr>)
            ''sess-1'' = Some s' \<and> current_round s' = 3 \<and> status s' = Voting) \<and>
   (\<exists>s'. find_session (ex_db\<lparr>game_sessions := [ex_session\<lparr>status := InProgress, current_round := 2\<rparr>]\<rparr>)
            ''sess-1'' = Some s' \<and> current_round s' = 2 \<and> status s' = InProgress)"
proof -
  have h: "isHost (ex_session\<lparr>status := InProgress, current_round := 2\<rparr>) ''alice''"
    "isHost (ex_session\<lparr>status := InProgress, current_round := 1\<rparr>) ''alice''"
    by (simp_all add: isHost_def ex_session_def)
  have s: "status (ex_session\<lparr>status := InProgress, current_round := 2\<rparr>) = InProgress"
    "status (ex_session\<lparr>status := InProgress, current_round := 1\<rparr>) = InProgress"
    by simp_all
  have m: "max_rounds ex_session = 3" "gs_id ex_session = ''sess-1''" by (simp_all add: ex_session_def)
  from nextRound_advances_by_one[OF ex_round_two_row s(1) ex_next_round_two] h(1) m
  have a: "\<exists>s'. find_session (ex_db\<lparr>game_sessions := [ex_session\<lparr>status := Voting, current_round := 3\<rparr>]\<rparr>)
            ''sess-1'' = Some s' \<and> current_round s' = 3 \<and> status s' = Voting"
    by auto
  from nextRound_advances_by_one[OF ex_round_one_row s(2) ex_next_round_one] h(2) m
  have b: "\<exists>s'. find_session (ex_db\<lparr>game_sessions := [ex_session\<lparr>status := InProgress, current_round := 2\<rparr>]\<rparr>)
            ''sess-1'' = Some s' \<and> current_round s' = 2 \<and> status s' = InProgress"
    by auto
  from a b h s ex_next_round_two ex_next_round_one show ?thesis by simp
qed

section \<open>Host-only transitions\<close>

text \<open>
  C5. For a user who is not the host, none of the three pages renders the control of a
  host-only transition: there is no start button in the lobby, no next-round button on
  the round page and no end-voting button on the voting page, so a click leaves the
  store, with its session, players and votes, as it was. \<^const>\<open>nextRound\<close> and
  \<^const>\<open>endVoting\<close> moreover return at once for such a caller; \<^const>\<open>startGame\<close> has no
  test of its own and rests on its button alone.
\<close>

theorem host_only_controls_not_offered:
  assumes "\<not> isHost session user"
  shows "startGameButton loading shuffledPlayers rnd user session players st = None \<and>
         nextRoundButton loading user session = None \<and>
         endVotingButton loading user session = None \<and>
         click (startGameButton loading shuffledPlayers rnd user session players st) db
           = (NotRendered, db) \<and>
         click (nextRoundButton loading user session) db = (NotRendered, db) \<and>
         click (endVotingButton loading user session) db = (NotRendered, db) \<and>
         nextRound user session db = (Inl NotHost, db) \<and>
         endVoting user session db = (Inl NotHost, db)"
  using assms
  by (simp add: startGameButton_def nextRoundButton_def endVotingButton_def click_def
        nextRound_non_host endVoting_non_host)

lemma ex_host_click:
  "click (startGameButton False [bob, carol, alice] (1/2) ''alice'' ex_session
            [alice, bob, carol] (Some ex_story)) ex_db
     = (Handled (Inr ()),
        ex_db\<lparr>game_players := [alice, bob, carol\<lparr>role := Murderer\<rparr>],
              game_sessions := [ex_session\<lparr>status := InProgress, current_round := 1\<rparr>]\<rparr>)"
proof -
  have "status ex_session = Waiting" "isHost ex_session ''alice''"
    "\<not> int (length [alice, bob, carol]) < required_players (Some ex_story)"
    by (simp_all add: ex_session_def isHost_def required_players_def ex_story_def)
  then show ?thesis
    by (simp add: startGameButton_def click_def ex_start)
qed

text \<open>
  Bob, a player of alice's session, finds none of the three controls on his pages; the
  same click by alice, the host, starts the session.
\<close>

theorem host_only_controls_not_offered_witness:
  "\<not> isHost ex_session ''bob'' \<and>
   click (startGameButton False [bob, carol, alice] (1/2) ''bob'' ex_session
            [alice, bob, carol] (Some ex_story)) ex_db = (NotRendered, ex_db) \<and>
   click (nextRoundButton False ''bob'' (ex_session\<lparr>status := InProgress, current_round := 1\<rparr>))
      (ex_db\<lparr>game_sessions := [ex_session\<lparr>status := InProgress, current_round := 1\<rparr>]\<rparr>)
     = (NotRendered, ex_db\<lparr>game_sessions := [ex_session\<lparr>status := InProgress, current_round := 1\<rparr>]\<rparr>) \<and>
   click (endVotingButton False ''bob'' (ex_session\<lparr>status := Voting, current_round := 3\<rparr>))
      (ex_db\<lparr>game_sessions := [ex_session\<lparr>status := Voting, current_round := 3\<rparr>]\<rparr>)
     = (NotRendered, ex_db\<lparr>game_sessions := [ex_session\<lparr>status := Voting, current_round := 3\<rparr>]\<rparr>) \<and>
   click (startGameButton False [bob, carol, alice] (1/2) ''alice'' ex_session
            [alice, bob, carol] (Some ex_story)) ex_db
     = (Handled (Inr ()),
        ex_db\<lparr>game_players := [alice, bob, carol\<lparr>role := Murderer\<rparr>],
              game_sessions := [ex_session\<lparr>status := InProgress, current_round := 1\<rparr>]\<rparr>)"
proof -
  have b: "\<not> isHost ex_session ''bob''"
    "\<not> isHost (ex_session\<lparr>status := InProgress, current_round := 1\<rparr>) ''bob''"
    "\<not> isHost (ex_session\<lparr>status := Voting, current_round := 3\<rparr>) ''bob''"
    by (simp_all add: isHost_def ex_session_def)
  note t1 = host_only_controls_not_offered[OF b(1), where loading = False
      and shuffledPlayers = "[bob, carol, alice]" and rnd = "1/2"
      and players = "[alice, bob, carol]" and st = "Some ex_story" and db = ex_db]
  note t2 = host_only_controls_not_offered[OF b(2), where loading = False
      and db = "ex_db\<lparr>game_sessions := [ex_session\<lparr>status := InProgress, current_round := 1\<rparr>]\<rparr>"]
  note t3 = host_only_controls_not_offered[OF b(3), where loading = False
      and db = "ex_db\<lparr>game_sessions := [ex_session\<lparr>status := Voting, current_round := 3\<rparr>]\<rparr>"]
  from t1 t2 t3 b(1) ex_host_click show ?thesis by blast
qed

section \<open>Casting a vote\<close>

lemma find_SomeD: "find P xs = Some w \<Longrightarrow> w \<in> set xs \<and> P w"
  by (induction xs) (auto split: if_splits)

lemma fetchVotes_truthy:
  assumes "\<exists>v\<in>set (votes db). v_session_id v = gs_id session \<and> voter_id v = user"
    and "\<forall>v\<in>set (votes db). accused_id v \<noteq> []"
  shows "truthy_string (fetchVotes user session userVote0 db)"
proof -
  let ?vs = "filter (\<lambda>v. v_session_id v = gs_id session) (votes db)"
  from assms(1) have "\<exists>v\<in>set ?vs. voter_id v = user" by auto
  then obtain w where w: "find (\<lambda>v. voter_id v = user) ?vs = Some w"
    by (cases "find (\<lambda>v. voter_id v = user) ?vs") (auto simp: find_None_iff)
  then have "w \<in> set ?vs" by (rule find_SomeD[THEN conjunct1])
  then have "w \<in> set (votes db)" by simp
  with assms(2) have "accused_id w \<noteq> []" by simp
  with w show ?thesis by (simp add: fetchVotes_def)
qed

lemma castVote_cases:
  "castVote new_id user session uv accusedId db = (res, uv', db') \<Longrightarrow>
   (truthy_string uv \<and> res = Inl AlreadyVoted \<and> uv' = uv \<and> db' = db) \<or>
   (\<not> truthy_string uv \<and> res = Inr () \<and> uv' = Some accusedId \<and>
    db' = db\<lparr>votes := votes db @ [\<lparr>v_id = new_id, v_session_id = gs_id session,
                 voter_id = user, accused_id = accusedId\<rparr>]\<rparr>)"
  by (auto simp: castVote_def split: if_splits)

lemma fetchVotes_falsy_no_vote:
  assumes "\<not> truthy_string (fetchVotes user session userVote0 db)"
    and "\<forall>v\<in>set (votes db). accused_id v \<noteq> []"
  shows "(gs_id session, user) \<notin> (\<lambda>v. (v_session_id v, voter_id v)) ` set (votes db)"
proof
  assume "(gs_id session, user) \<in> (\<lambda>v. (v_session_id v, voter_id v)) ` set (votes db)"
  then have "\<exists>v\<in>set (votes db). v_session_id v = gs_id session \<and> voter_id v = user"
    by auto
  from fetchVotes_truthy[OF this assms(2)] assms(1) show False by simp
qed

text \<open>
  What the guard of \<^const>\<open>castVote\<close> achieves when the page's \<^verbatim>\<open>userVote\<close> is what
  \<^const>\<open>fetchVotes\<close> computes from the store, every stored vote naming a non-empty
  accused: a voter who has a vote in the session is refused and the store is unchanged;
  an accepted vote is appended after the existing votes, none of which is touched, and a
  further attempt from the same page is refused; a store with at most one vote for each
  pair of a session and a voter stays so.
\<close>

lemma castVote_with_fetched_flag:
  assumes ids: "\<forall>v\<in>set (votes db). accused_id v \<noteq> []"
    and run: "castVote new_id user session (fetchVotes user session userVote0 db) accusedId db
                = (res, userVote', db')"
  shows "((\<exists>v\<in>set (votes db). v_session_id v = gs_id session \<and> voter_id v = user) \<longrightarrow>
            res = Inl AlreadyVoted \<and> db' = db) \<and>
         (res = Inl AlreadyVoted \<longrightarrow> db' = db) \<and>
         (res = Inr () \<longrightarrow>
            votes db' = votes db @ [\<lparr>v_id = new_id, v_session_id = gs_id session,
                                     voter_id = user, accused_id = accusedId\<rparr>] \<and>
            (accusedId \<noteq> [] \<longrightarrow>
               castVote new_id' user session userVote' accusedId' db'
                 = (Inl AlreadyVoted, userVote', db'))) \<and>
         (one_vote_per_voter db \<longrightarrow> one_vote_per_voter db')"
proof -
  let ?uv = "fetchVotes user session userVote0 db"
  note c = castVote_cases[OF run]
  have 1: "(\<exists>v\<in>set (votes db). v_session_id v = gs_id session \<and> voter_id v = user) \<longrightarrow>
            res = Inl AlreadyVoted \<and> db' = db"
    using c fetchVotes_truthy[OF _ ids, of session user userVote0] by auto
  have 2: "res = Inl AlreadyVoted \<longrightarrow> db' = db" using c by auto
  have 3: "res = Inr () \<longrightarrow>
            votes db' = votes db @ [\<lparr>v_id = new_id, v_session_id = gs_id session,
                                     voter_id = user, accused_id = accusedId\<rparr>] \<and>
            (accusedId \<noteq> [] \<longrightarrow>
               castVote new_id' user session userVote' accusedId' db'
                 = (Inl AlreadyVoted, userVote', db'))"
    using c by (auto simp: castVote_def)
  have 4: "one_vote_per_voter db \<longrightarrow> one_vote_per_voter db'"
  proof
    assume inv: "one_vote_per_voter db"
    from c show "one_vote_per_voter db'"
    proof
      assume "truthy_string ?uv \<and> res = Inl AlreadyVoted \<and> userVote' = ?uv \<and> db' = db"
      with inv show ?thesis by simp
    next
      assume a: "\<not> truthy_string ?uv \<and> res = Inr () \<and> userVote' = Some accusedId \<and>
        db' = db\<lparr>votes := votes db @ [\<lparr>v_id = new_id, v_session_id = gs_id session,
                 voter_id = user, accused_id = accusedId\<rparr>]\<rparr>"
      then have "(gs_id session, user) \<notin> (\<lambda>v. (v_session_id v, voter_id v)) ` set (votes db)"
        using fetchVotes_falsy_no_vote[OF _ ids] by blast
      with inv a show ?thesis by (simp add: one_vote_per_voter_def)
    qed
  qed
  from 1 2 3 4 show ?thesis by blast
qed


section \<open>Joining a session\<close>

lemma joinGame_not_reaching:
  assumes "\<not> reaches_draw user sessionCode pw db session"
    and "resolve_session db sessionCode = Some session"
  shows "snd (joinGame new_id rnd user sessionCode pw db) = db \<and>
         (\<forall>p. fst (joinGame new_id rnd user sessionCode pw db) \<noteq> Inr (Joined session p))"
  using assms
  by (auto simp: joinGame_def reaches_draw_def split: option.splits)

lemma joinGame_unresolved:
  assumes "resolve_session db sessionCode = None"
  shows "joinGame new_id rnd user sessionCode pw db =
           (Inl (if trim sessionCode = [] then EmptyCode else GameNotFound), db)"
  using assms by (simp add: joinGame_def)

lemma joinGame_at_draw:
  assumes "reaches_draw user sessionCode pw db session"
  shows "joinGame new_id rnd user sessionCode pw db =
     (let available = availableCharacters db session;
          i = random_index rnd (length available) in
      if available = [] then (Inl NoCharactersAvailable, db)
      else if i < 0 \<or> int (length available) \<le> i then (Inl Thrown, db)
      else (Inr (Joined session (drawn_player new_id user db session (nat i))),
            db\<lparr>game_players := game_players db @ [drawn_player new_id user db session (nat i)]\<rparr>))"
  using assms
  by (auto simp: joinGame_def reaches_draw_def Let_def drawn_player_def)

lemma joinGame_draw_in_range:
  assumes "reaches_draw user sessionCode pw db session"
    and "0 \<le> rnd" "rnd < 1" "availableCharacters db session \<noteq> []"
  shows "joinGame new_id rnd user sessionCode pw db =
      (Inr (Joined session (drawn_player new_id user db session
              (nat (random_index rnd (length (availableCharacters db session)))))),
       db\<lparr>game_players := game_players db @ [drawn_player new_id user db session
              (nat (random_index rnd (length (availableCharacters db session))))]\<rparr>)"
proof -
  have "0 < length (availableCharacters db session)" using assms(4) by simp
  from random_index_range[OF assms(2,3) this] show ?thesis
    using assms(4) by (simp add: joinGame_at_draw[OF assms(1)] Let_def)
qed

lemma drawn_player_fresh:
  assumes "i < length (availableCharacters db session)"
  shows "(session_id (drawn_player new_id user db session i),
          character_id (drawn_player new_id user db session i))
         \<notin> (\<lambda>p. (session_id p, character_id p)) ` set (game_players db)"
proof -
  have "availableCharacters db session ! i \<in> set (availableCharacters db session)"
    using assms by simp
  then have "ch_id (availableCharacters db session ! i) \<notin> set (takenCharacterIds db session)"
    by (simp add: availableCharacters_def)
  then show ?thesis
    by (auto simp: drawn_player_def takenCharacterIds_def session_players_def)
qed

lemma joinGame_result_cases:
  assumes "joinGame new_id rnd user sessionCode pw db = (res, db')"
  shows "db' = db \<and> (\<forall>s p. res \<noteq> Inr (Joined s p)) \<or>
         (\<exists>session i. reaches_draw user sessionCode pw db session \<and>
            i < length (availableCharacters db session) \<and>
            int i = random_index rnd (length (availableCharacters db session)) \<and>
            res = Inr (Joined session (drawn_player new_id user db session i)) \<and>
            db' = db\<lparr>game_players := game_players db @ [drawn_player new_id user db session i]\<rparr>)"
proof (cases "resolve_session db sessionCode")
  case None
  with assms show ?thesis by (auto simp: joinGame_unresolved)
next
  case (Some session)
  show ?thesis
  proof (cases "reaches_draw user sessionCode pw db session")
    case False
    have "db' = db" using joinGame_not_reaching[OF False Some, of new_id rnd] assms by simp
    moreover have "res \<noteq> Inr (Joined s p)" for s p
      using assms Some False
      by (auto simp: joinGame_def reaches_draw_def split: option.splits if_splits)
    ultimately show ?thesis by blast
  next
    case True
    let ?a = "availableCharacters db session"
    let ?i = "random_index rnd (length ?a)"
    show ?thesis
    proof (cases "?a = [] \<or> ?i < 0 \<or> int (length ?a) \<le> ?i")
      case True
      with assms joinGame_at_draw[OF \<open>reaches_draw user sessionCode pw db session\<close>, of new_id rnd]
      show ?thesis by (auto simp: Let_def split: if_splits)
    next
      case False
      then have "nat ?i < length ?a" "int (nat ?i) = ?i" by auto
      moreover have "res = Inr (Joined session (drawn_player new_id user db session (nat ?i)))"
        "db' = db\<lparr>game_players := game_players db @ [drawn_player new_id user db session (nat ?i)]\<rparr>"
        using False assms joinGame_at_draw[OF True, of new_id rnd] by (auto simp: Let_def)
      ultimately show ?thesis using True by blast
    qed
  qed
qed

lemma joinGame_keeps_unique_characters:
  assumes "joinGame new_id rnd user sessionCode pw db = (res, db')" and "unique_characters db"
  shows "unique_characters db'"
  using joinGame_result_cases[OF assms(1)]
proof
  assume "db' = db \<and> (\<forall>s p. res \<noteq> Inr (Joined s p))"
  with assms(2) show ?thesis by simp
next
  assume "\<exists>session i. reaches_draw user sessionCode pw db session \<and>
            i < length (availableCharacters db session) \<and>
            int i = random_index rnd (length (availableCharacters db session)) \<and>
            res = Inr (Joined session (drawn_player new_id user db session i)) \<and>
            db' = db\<lparr>game_players := game_players db @ [drawn_player new_id user db session i]\<rparr>"
  then obtain session i where i: "i < length (availableCharacters db session)"
    and db': "db' = db\<lparr>game_players := game_players db @ [drawn_player new_id user db session i]\<rparr>"
    by blast
  from drawn_player_fresh[OF i, of new_id user] assms(2) show ?thesis
    by (simp add: unique_characters_def db')
qed

lemma ex_resolve: "resolve_session ex_db ''abcd'' = Some ex_session"
  by (simp add: resolve_session_def toUpperCase_def upper_char_def ex_db_def)
     (simp add: ex_session_def)

lemma ex_resolve_two: "resolve_session ex_db_two ''abcd'' = Some ex_session"
  by (simp add: resolve_session_def toUpperCase_def upper_char_def ex_db_def ex_db_two_def)
     (simp add: ex_session_def)

lemma ex_unresolved: "resolve_session ex_db ''wxyz'' = None"
  by (simp add: resolve_session_def toUpperCase_def upper_char_def ex_db_def)
     (simp add: ex_session_def)

lemma ex_story_found: "session_story ex_db ex_session = Some ex_story"
  by (simp add: session_story_def ex_db_def) (simp add: ex_session_def ex_story_def)

text \<open>
  C6, as the code has it. The join is refused, and the store unchanged, when the code
  resolves to no session, when the session has a password and the supplied one differs
  (with the message for an incorrect password, a conflict in the specification's
  kinds), when the session is not waiting, and when the user is not yet a player of the
  session and the player count has reached the story's maximum.
\<close>

theorem joinGame_rejections:
  assumes run: "joinGame new_id rnd user sessionCode pw db = (res, db')"
  shows
   "(resolve_session db sessionCode = None \<longrightarrow> (\<exists>e. res = Inl e) \<and> db' = db) \<and>
    (\<forall>session. resolve_session db sessionCode = Some session \<longrightarrow>
       (truthy_string (password session) \<and> password session \<noteq> Some pw \<longrightarrow>
          (\<exists>e. res = Inl e) \<and> db' = db \<and>
          (trim sessionCode \<noteq> [] \<longrightarrow> res = Inl IncorrectPassword)) \<and>
       (status session \<noteq> Waiting \<longrightarrow> (\<exists>e. res = Inl e) \<and> db' = db) \<and>
       (existingPlayer db session user = None \<longrightarrow>
          (\<forall>s. session_story db session = Some s \<and>
                max_players s \<le> int (length (session_players db (gs_id session))) \<longrightarrow>
                (\<exists>e. res = Inl e) \<and> db' = db))) \<and>
    spec_error_kind IncorrectPassword = Some Conflict"
proof -
  have 1: "resolve_session db sessionCode = None \<longrightarrow> (\<exists>e. res = Inl e) \<and> db' = db"
    using run by (auto simp: joinGame_unresolved)
  have 2: "(truthy_string (password session) \<and> password session \<noteq> Some pw \<longrightarrow>
          (\<exists>e. res = Inl e) \<and> db' = db \<and>
          (trim sessionCode \<noteq> [] \<longrightarrow> res = Inl IncorrectPassword))"
    if "resolve_session db sessionCode = Some session" for session
    using run that by (auto simp: joinGame_def split: if_splits)
  have 3: "status session \<noteq> Waiting \<longrightarrow> (\<exists>e. res = Inl e) \<and> db' = db"
    if "resolve_session db sessionCode = Some session" for session
    using run that by (auto simp: joinGame_def split: if_splits)
  have 4: "existingPlayer db session user = None \<longrightarrow>
          (\<forall>s. session_story db session = Some s \<and>
                max_players s \<le> int (length (session_players db (gs_id session))) \<longrightarrow>
                (\<exists>e. res = Inl e) \<and> db' = db)"
    if "resolve_session db sessionCode = Some session" for session
    using run that by (auto simp: joinGame_def game_full_def split: if_splits)
  from 1 2 3 4 show ?thesis by simp
qed

lemma ex_rejoin:
  "joinGame ''gp-4'' (1/2) ''alice'' ''abcd'' ''secret'' ex_db
     = (Inr (AlreadyJoined ex_session alice), ex_db)"
  by (simp add: joinGame_def ex_resolve trim_def is_space_def existingPlayer_def)
     (simp add: ex_defs)

text \<open>
  C6 as stated refuses every join to a session whose player count equals the maximum.
  The sample session is waiting and full, three players of at most three; alice, one of
  them, joins again with the right password and is taken back in, with no error.
\<close>

theorem rejoin_full_session_accepted:
  "resolve_session ex_db ''abcd'' = Some ex_session \<and>
   status ex_session = Waiting \<and>
   session_story ex_db ex_session = Some ex_story \<and>
   int (length (session_players ex_db (gs_id ex_session))) = max_players ex_story \<and>
   joinGame ''gp-4'' (1/2) ''alice'' ''abcd'' ''secret'' ex_db
     = (Inr (AlreadyJoined ex_session alice), ex_db)"
  by (simp add: ex_resolve ex_story_found ex_rejoin ex_session_players)
     (simp add: ex_session_def ex_story_def)

lemma ex_wrong_password:
  "joinGame ''gp-4'' (1/2) ''dave'' ''abcd'' ''guess'' ex_db_two = (Inl IncorrectPassword, ex_db_two)"
  by (simp add: joinGame_def ex_resolve_two trim_def is_space_def)
     (simp add: ex_session_def)

lemma ex_full:
  "joinGame ''gp-4'' (1/2) ''dave'' ''abcd'' ''secret'' ex_db = (Inl GameFull, ex_db)"
  by (simp add: joinGame_def ex_resolve trim_def is_space_def existingPlayer_def game_full_def
        ex_story_found ex_session_players)
     (simp add: ex_defs)

lemma ex_not_found:
  "joinGame ''gp-4'' (1/2) ''dave'' ''wxyz'' ''secret'' ex_db = (Inl GameNotFound, ex_db)"
  by (simp add: joinGame_def ex_unresolved trim_def is_space_def)

text \<open>
  Dave is refused with a wrong password, refused at the full session, and refused for
  a code that no session has.
\<close>

theorem joinGame_rejections_witness:
  "resolve_session ex_db_two ''abcd'' = Some ex_session \<and>
   truthy_string (password ex_session) \<and> password ex_session \<noteq> Some ''guess'' \<and>
   trim ''abcd'' \<noteq> [] \<and>
   joinGame ''gp-4'' (1/2) ''dave'' ''abcd'' ''guess'' ex_db_two = (Inl IncorrectPassword, ex_db_two) \<and>
   existingPlayer ex_db ex_session ''dave'' = None \<and>
   session_story ex_db ex_session = Some ex_story \<and>
   max_players ex_story \<le> int (length (session_players ex_db (gs_id ex_session))) \<and>
   (\<exists>e. joinGame ''gp-4'' (1/2) ''dave'' ''abcd'' ''secret'' ex_db = (Inl e, ex_db)) \<and>
   resolve_session ex_db ''wxyz'' = None \<and>
   (\<exists>e. joinGame ''gp-4'' (1/2) ''dave'' ''wxyz'' ''secret'' ex_db = (Inl e, ex_db))"
proof -
  have pw: "truthy_string (password ex_session)" "password ex_session \<noteq> Some ''guess''"
    "trim ''abcd'' \<noteq> []"
    by (simp_all add: ex_session_def trim_def is_space_def)
  have ex: "existingPlayer ex_db ex_session ''dave'' = None"
    by (simp add: existingPlayer_def ex_defs)
  have full: "max_players ex_story \<le> int (length (session_players ex_db (gs_id ex_session)))"
    by (simp add: ex_session_players) (simp add: ex_story_def)
  have a: "joinGame ''gp-4'' (1/2) ''dave'' ''abcd'' ''guess'' ex_db_two
             = (Inl IncorrectPassword, ex_db_two)"
    using joinGame_rejections[where new_id = "''gp-4''" and rnd = "1/2" and user = "''dave''"
            and sessionCode = "''abcd''" and pw = "''guess''" and db = ex_db_two,
            OF prod.collapse[symmetric]]
      ex_resolve_two pw
    by (simp add: prod_eq_iff)
  have b: "\<exists>e. joinGame ''gp-4'' (1/2) ''dave'' ''abcd'' ''secret'' ex_db = (Inl e, ex_db)"
    using joinGame_rejections[where new_id = "''gp-4''" and rnd = "1/2" and user = "''dave''"
            and sessionCode = "''abcd''" and pw = "''secret''" and db = ex_db,
            OF prod.collapse[symmetric]]
      ex_resolve ex ex_story_found full
    by (simp add: prod_eq_iff)
  have c: "\<exists>e. joinGame ''gp-4'' (1/2) ''dave'' ''wxyz'' ''secret'' ex_db = (Inl e, ex_db)"
    using joinGame_rejections[where new_id = "''gp-4''" and rnd = "1/2" and user = "''dave''"
            and sessionCode = "''wxyz''" and pw = "''secret''" and db = ex_db,
            OF prod.collapse[symmetric]]
      ex_unresolved
    by (simp add: prod_eq_iff)
  show ?thesis
    by (intro conjI ex_resolve_two pw a ex ex_story_found full b ex_unresolved c)
qed

lemma unique_characters_iff:
  "unique_characters db \<longleftrightarrow> (\<forall>sid. distinct (map character_id (session_players db sid)))"
proof -
  have "distinct (map (\<lambda>p. (session_id p, character_id p)) xs) \<longleftrightarrow>
        (\<forall>sid. distinct (map character_id (filter (\<lambda>p. session_id p = sid) xs)))"
    for xs :: "game_player list"
  proof (induction xs)
    case Nil
    then show ?case by simp
  next
    case (Cons a xs)
    have "(session_id a, character_id a) \<notin> (\<lambda>p. (session_id p, character_id p)) ` set xs \<longleftrightarrow>
          character_id a \<notin> character_id ` {p \<in> set xs. session_id p = session_id a}"
      by (force simp: image_iff)
    with Cons show ?case by auto
  qed
  then show ?thesis by (simp add: unique_characters_def session_players_def)
qed

lemma availableCharacters_pool:
  "availableCharacters db session =
     filter (\<lambda>c. ch_story_id c = story_id session \<and>
                 ch_id c \<notin> character_id `
                   set (filter (\<lambda>p. session_id p = gs_id session) (game_players db)))
       (characters db)"
proof -
  have "set (takenCharacterIds db session)
          = character_id ` set (filter (\<lambda>p. session_id p = gs_id session) (game_players db))"
    by (auto simp: takenCharacterIds_def session_players_def)
  then show ?thesis
    by (simp add: availableCharacters_def conj_commute)
qed

lemma ex_resolve_one: "resolve_session ex_db_one ''abcd'' = Some ex_session"
  by (simp add: resolve_session_def toUpperCase_def upper_char_def ex_db_def ex_db_one_def)
     (simp add: ex_session_def ex_other_session_def)

lemma ex_reaches_one: "reaches_draw ''bob'' ''abcd'' ''secret'' ex_db_one ex_session"
proof -
  have "trim ''abcd'' \<noteq> []" by (simp add: trim_def is_space_def)
  moreover have "session_story ex_db_one ex_session = Some ex_story"
    by (simp add: session_story_def ex_db_def ex_db_one_def) (simp add: ex_session_def ex_story_def)
  moreover have "session_players ex_db_one (gs_id ex_session) = [alice]"
    by (simp add: session_players_def ex_defs)
  ultimately have "\<not> game_full ex_db_one ex_session"
    by (simp add: game_full_def) (simp add: ex_story_def)
  moreover have "existingPlayer ex_db_one ex_session ''bob'' = None"
    by (simp add: existingPlayer_def ex_defs)
  moreover have "password ex_session = Some ''secret''" "status ex_session = Waiting"
    by (simp_all add: ex_session_def)
  moreover note \<open>trim ''abcd'' \<noteq> []\<close>
  ultimately show ?thesis
    by (simp add: reaches_draw_def ex_resolve_one)
qed

text \<open>
  C8. If in every session the players hold distinct characters before a join, they do
  so after it. The characters a join draws from are those of the session's story that no
  player of the session holds. A request that reaches the draw is refused, with nothing
  written, when none is left; otherwise the new player gets element \<open>i\<close> of the \<open>n\<close>
  remaining ones exactly when the random number lies in the \<open>i\<close>-th of \<open>n\<close> intervals of
  equal width, and only the new player's row is added. The handler creates a player on
  no other path: whenever it does not report a new player, the store is unchanged.
\<close>

theorem joinGame_unique_characters:
  assumes rnd: "0 \<le> rnd" "rnd < 1"
    and run: "joinGame new_id rnd user sessionCode pw db = (res, db')"
  shows
   "((\<forall>sid. distinct (map character_id (filter (\<lambda>p. session_id p = sid) (game_players db)))) \<longrightarrow>
     (\<forall>sid. distinct (map character_id (filter (\<lambda>p. session_id p = sid) (game_players db'))))) \<and>
    (\<forall>session.
       availableCharacters db session =
         filter (\<lambda>c. ch_story_id c = story_id session \<and>
                     ch_id c \<notin> character_id `
                   set (filter (\<lambda>p. session_id p = gs_id session) (game_players db)))
           (characters db)) \<and>
    (\<forall>session. reaches_draw user sessionCode pw db session \<longrightarrow>
       (availableCharacters db session = [] \<longrightarrow> res = Inl NoCharactersAvailable \<and> db' = db) \<and>
       (availableCharacters db session \<noteq> [] \<longrightarrow>
          (\<exists>i < length (availableCharacters db session).
             res = Inr (Joined session (drawn_player new_id user db session i)) \<and>
             db' = db\<lparr>game_players := game_players db @ [drawn_player new_id user db session i]\<rparr> \<and>
             character_id (drawn_player new_id user db session i)
               = ch_id (availableCharacters db session ! i) \<and>
             (\<forall>j < length (availableCharacters db session).
                j = i \<longleftrightarrow>
                  real j / real (length (availableCharacters db session)) \<le> rnd \<and>
                  rnd < (real j + 1) / real (length (availableCharacters db session)))))) \<and>
    (\<forall>session p. res = Inr (Joined session p) \<longrightarrow>
       reaches_draw user sessionCode pw db session \<and> availableCharacters db session \<noteq> []) \<and>
    ((\<forall>session p. res \<noteq> Inr (Joined session p)) \<longrightarrow> db' = db)"
proof -
  have 5: "(\<forall>session p. res \<noteq> Inr (Joined session p)) \<longrightarrow> db' = db"
    using joinGame_result_cases[OF run] by blast
  have 1: "(\<forall>sid. distinct (map character_id (filter (\<lambda>p. session_id p = sid) (game_players db)))) \<longrightarrow>
     (\<forall>sid. distinct (map character_id (filter (\<lambda>p. session_id p = sid) (game_players db'))))"
    using joinGame_keeps_unique_characters[OF run]
    by (simp add: unique_characters_iff session_players_def)
  have 2: "availableCharacters db session = [] \<longrightarrow> res = Inl NoCharactersAvailable \<and> db' = db"
    if "reaches_draw user sessionCode pw db session" for session
    using run joinGame_at_draw[OF that, of new_id rnd] by (auto simp: Let_def)
  have 3: "\<exists>i < length (availableCharacters db session).
             res = Inr (Joined session (drawn_player new_id user db session i)) \<and>
             db' = db\<lparr>game_players := game_players db @ [drawn_player new_id user db session i]\<rparr> \<and>
             character_id (drawn_player new_id user db session i)
               = ch_id (availableCharacters db session ! i) \<and>
             (\<forall>j < length (availableCharacters db session).
                j = i \<longleftrightarrow>
                  real j / real (length (availableCharacters db session)) \<le> rnd \<and>
                  rnd < (real j + 1) / real (length (availableCharacters db session)))"
    if r: "reaches_draw user sessionCode pw db session"
      and ne: "availableCharacters db session \<noteq> []" for session
  proof -
    let ?a = "availableCharacters db session"
    let ?k = "random_index rnd (length ?a)"
    have pos: "0 < length ?a" using ne by simp
    have k: "0 \<le> ?k" "?k < int (length ?a)" using random_index_range[OF rnd pos] by simp_all
    then have lt: "nat ?k < length ?a" by simp
    from joinGame_draw_in_range[OF r rnd ne, of new_id] run
    have res: "res = Inr (Joined session (drawn_player new_id user db session (nat ?k)))"
      and db': "db' = db\<lparr>game_players := game_players db @ [drawn_player new_id user db session (nat ?k)]\<rparr>"
      by simp_all
    have ch: "character_id (drawn_player new_id user db session (nat ?k)) = ch_id (?a ! nat ?k)"
      by (simp add: drawn_player_def)
    have "j = nat ?k \<longleftrightarrow> real j / real (length ?a) \<le> rnd \<and> rnd < (real j + 1) / real (length ?a)"
      for j
      using random_index_interval[OF pos, of rnd j] k by auto
    with lt res db' ch show ?thesis by blast
  qed
  have 4: "reaches_draw user sessionCode pw db session \<and> availableCharacters db session \<noteq> []"
    if "res = Inr (Joined session p)" for session p
  proof -
    from joinGame_result_cases[OF run] that
    obtain s i where s: "reaches_draw user sessionCode pw db s"
      "i < length (availableCharacters db s)"
      "res = Inr (Joined s (drawn_player new_id user db s i))"
      by blast
    with that have "s = session" by simp
    with s show ?thesis by auto
  qed
  from 1 2 3 4 5 availableCharacters_pool show ?thesis by blast
qed

text \<open>
  Bob joins the first session of the sample store while alice is alone in it and the
  third character is held in the second session only. Two characters remain for him, the
  second and the third, and the draw 1/2 gives him the third.
\<close>

theorem joinGame_unique_characters_witness:
  "(0::real) \<le> 1/2 \<and> (1/2::real) < 1 \<and>
   unique_characters ex_db_one \<and>
   reaches_draw ''bob'' ''abcd'' ''secret'' ex_db_one ex_session \<and>
   availableCharacters ex_db_one ex_session
     = [\<lparr>ch_id = ''ch-2'', ch_story_id = ''story-1'', ch_name = ''Cook''\<rparr>,
        \<lparr>ch_id = ''ch-3'', ch_story_id = ''story-1'', ch_name = ''Heir''\<rparr>] \<and>
   joinGame ''gp-2'' (1/2) ''bob'' ''abcd'' ''secret'' ex_db_one
     = (Inr (Joined ex_session (bob\<lparr>character_id := ''ch-3''\<rparr>)),
        ex_db_one\<lparr>game_players := [alice, zed, bob\<lparr>character_id := ''ch-3''\<rparr>]\<rparr>) \<and>
   unique_characters (ex_db_one\<lparr>game_players := [alice, zed, bob\<lparr>character_id := ''ch-3''\<rparr>]\<rparr>)"
proof -
  let ?run = "joinGame ''gp-2'' (1/2) ''bob'' ''abcd'' ''secret'' ex_db_one"
  let ?pool = "availableCharacters ex_db_one ex_session"
  let ?db' = "ex_db_one\<lparr>game_players := [alice, zed, bob\<lparr>character_id := ''ch-3''\<rparr>]\<rparr>"
  have rnd: "(0::real) \<le> 1/2" "(1/2::real) < 1" by simp_all
  have u: "unique_characters ex_db_one" by (simp add: unique_characters_def ex_defs)
  note t = joinGame_unique_characters[where new_id = "''gp-2''" and user = "''bob''"
              and sessionCode = "''abcd''" and pw = "''secret''" and db = ex_db_one,
              OF rnd prod.collapse[symmetric]]
  from t have eq: "?pool = filter (\<lambda>c. ch_story_id c = story_id ex_session \<and>
                     ch_id c \<notin> character_id `
                   set (filter (\<lambda>p. session_id p = gs_id ex_session) (game_players ex_db_one)))
           (characters ex_db_one)"
    by blast
  have "filter (\<lambda>c. ch_story_id c = story_id ex_session \<and>
                     ch_id c \<notin> character_id `
                   set (filter (\<lambda>p. session_id p = gs_id ex_session) (game_players ex_db_one)))
           (characters ex_db_one)
        = [\<lparr>ch_id = ''ch-2'', ch_story_id = ''story-1'', ch_name = ''Cook''\<rparr>,
           \<lparr>ch_id = ''ch-3'', ch_story_id = ''story-1'', ch_name = ''Heir''\<rparr>]"
    by (simp add: ex_defs)
  with eq have pool: "?pool = [\<lparr>ch_id = ''ch-2'', ch_story_id = ''story-1'', ch_name = ''Cook''\<rparr>,
        \<lparr>ch_id = ''ch-3'', ch_story_id = ''story-1'', ch_name = ''Heir''\<rparr>]"
    by (rule trans)
  then have ne: "?pool \<noteq> []" by simp
  from t ex_reaches_one ne obtain i where i: "i < length ?pool"
    and r: "fst ?run = Inr (Joined ex_session (drawn_player ''gp-2'' ''bob'' ex_db_one ex_session i))"
      "snd ?run = ex_db_one\<lparr>game_players := game_players ex_db_one
                     @ [drawn_player ''gp-2'' ''bob'' ex_db_one ex_session i]\<rparr>"
    and iv: "\<forall>j < length ?pool. j = i \<longleftrightarrow>
                  real j / real (length ?pool) \<le> 1/2 \<and> 1/2 < (real j + 1) / real (length ?pool)"
    by blast
  from iv have "(1::nat) = i" by (simp add: pool)
  then have d: "drawn_player ''gp-2'' ''bob'' ex_db_one ex_session i = bob\<lparr>character_id := ''ch-3''\<rparr>"
    by (auto simp: drawn_player_def pool) (simp add: ex_session_def bob_def)
  have e: "ex_db_one\<lparr>game_players := game_players ex_db_one @ [bob\<lparr>character_id := ''ch-3''\<rparr>]\<rparr> = ?db'"
    by (simp add: ex_db_one_def)
  from r have j: "?run = (Inr (Joined ex_session (bob\<lparr>character_id := ''ch-3''\<rparr>)), ?db')"
    by (simp add: d e prod_eq_iff)
  from t u have "unique_characters (snd ?run)"
    by (simp add: unique_characters_iff session_players_def)
  with j have u': "unique_characters ?db'" by simp
  show ?thesis by (intro conjI rnd u ex_reaches_one pool j u')
qed

end
